theory Spec2Isabelle
  imports Main "HOL-Library.Multiset"
begin

section \<open>Data model\<close>

text \<open>
  The C++ type \<open>int\<close> is modelled by HOL's \<open>int\<close>. The functions below only copy and
  compare such values; the two places where a value is computed (the cast of the queue
  size in \<open>PeerNode::getCurrentLoad\<close> and the increment of the atomic counter in the
  worker) write the 32-bit wrap-around out through \<open>to_int32\<close>. The member names of the
  source end in an underscore, which Isabelle does not admit in a constant's name, so
  the underscore is dropped (\<open>id_\<close> becomes \<open>node_id\<close> and \<open>task_id\<close>, \<open>type_\<close> becomes
  \<open>msg_type\<close>). The process-wide \<open>Logger\<close> is written to and never read by the code
  below; its calls are left out.
\<close>

definition to_int32 :: "int \<Rightarrow> int" where
  "to_int32 x = (let r = x mod 4294967296 in if r < 2147483648 then r else r - 4294967296)"

text \<open>Task.h: a task is immutable after construction; a \<open>shared_ptr<Task>\<close> is
  \<open>Task option\<close>, with \<open>None\<close> the null pointer.\<close>

record Task =
  task_id :: int
  complexity :: int
  creation_time :: nat

text \<open>Message.h / Message.cpp\<close>

datatype MessageType = LOAD_UPDATE | TASK_REQUEST | TASK_TRANSFER | PEER_DISCOVERY

record Message =
  msg_type :: MessageType
  sender_id :: int
  receiver_id :: int
  load_value :: int
  task :: "Task option"

definition new_Message :: "MessageType \<Rightarrow> int \<Rightarrow> int \<Rightarrow> Message" where
  "new_Message ty sid rid =
     \<lparr>msg_type = ty, sender_id = sid, receiver_id = rid, load_value = 0, task = None\<rparr>"

definition getType :: "Message \<Rightarrow> MessageType" where
  "getType m = msg_type m"

definition getSenderId :: "Message \<Rightarrow> int" where
  "getSenderId m = sender_id m"

definition getReceiverId :: "Message \<Rightarrow> int" where
  "getReceiverId m = receiver_id m"

definition setLoadValue :: "Message \<Rightarrow> int \<Rightarrow> Message" where
  "setLoadValue m load = m\<lparr>load_value := load\<rparr>"

definition getLoadValue :: "Message \<Rightarrow> int" where
  "getLoadValue m = load_value m"

definition setTask :: "Message \<Rightarrow> Task option \<Rightarrow> Message" where
  "setTask m t = m\<lparr>task := t\<rparr>"

definition getTask :: "Message \<Rightarrow> Task option" where
  "getTask m = task m"

subsection \<open>\<open>std::map<int, V>\<close>\<close>

text \<open>
  A \<open>std::map\<close> with \<open>int\<close> keys is the list of its entries in iteration order, which is
  ascending key order with every key at most once (\<open>map_wf\<close>). \<open>map_find\<close> is \<open>find\<close>,
  \<open>map_assign m k v\<close> is \<open>m[k] = v\<close>.
\<close>

type_synonym 'v int_map = "(int \<times> 'v) list"

definition map_wf :: "'v int_map \<Rightarrow> bool" where
  "map_wf m = sorted_wrt (<) (map fst m)"

definition map_find :: "'v int_map \<Rightarrow> int \<Rightarrow> 'v option" where
  "map_find m k = map_of m k"

fun map_assign :: "'v int_map \<Rightarrow> int \<Rightarrow> 'v \<Rightarrow> 'v int_map" where
  "map_assign [] k v = [(k, v)]"
| "map_assign (e # m) k v =
     (if fst e < k then e # map_assign m k v
      else if fst e = k then (k, v) # m
      else (k, v) # e # m)"

subsection \<open>PeerNode.h\<close>

text \<open>
  \<open>network_manager\<close> is the raw pointer \<open>NetworkManager*\<close>: \<open>None\<close> is \<open>nullptr\<close>, \<open>Some a\<close>
  the manager stored at address \<open>a\<close>. The queues are lists with the front at the head.
  A queued task is never null: \<open>addTask\<close> dereferences its argument.
\<close>

record PeerNode =
  node_id :: int
  load_threshold :: int
  tasks_processed :: int
  task_queue :: "Task list"
  peer_loads :: "int int_map"
  peers :: "int list"
  message_queue :: "Message list"
  running :: bool
  network_manager :: "nat option"

definition new_PeerNode :: "int \<Rightarrow> int \<Rightarrow> nat option \<Rightarrow> PeerNode" where
  "new_PeerNode i thr nm =
     \<lparr>node_id = i, load_threshold = thr, tasks_processed = 0, task_queue = [],
      peer_loads = [], peers = [], message_queue = [], running = False,
      network_manager = nm\<rparr>"

definition addTask :: "PeerNode \<Rightarrow> Task \<Rightarrow> PeerNode" where
  "addTask n t = n\<lparr>task_queue := task_queue n @ [t]\<rparr>"

definition getCurrentLoad :: "PeerNode \<Rightarrow> int" where
  "getCurrentLoad n = to_int32 (int (length (task_queue n)))"

definition handleMessage :: "PeerNode \<Rightarrow> Message \<Rightarrow> PeerNode" where
  "handleMessage n m = n\<lparr>message_queue := message_queue n @ [m]\<rparr>"

definition addPeer :: "PeerNode \<Rightarrow> int \<Rightarrow> PeerNode" where
  "addPeer n peer_id =
     (if peer_id \<notin> set (peers n) then n\<lparr>peers := peers n @ [peer_id]\<rparr> else n)"

definition getPeers :: "PeerNode \<Rightarrow> int list" where
  "getPeers n = peers n"

text \<open>
  \<open>PeerNode::selectBestPeer\<close>. \<open>selectBestPeer_loop\<close> is the range-for over the map with
  the two locals \<open>best_peer\<close> and \<open>min_load\<close>; \<open>selectBestPeer_body\<close> is the body of the
  function for a given map and a given value of \<open>getCurrentLoad()\<close> (the specification
  calls it \<open>pick_cheaper_than\<close>).
\<close>

fun selectBestPeer_loop :: "int int_map \<Rightarrow> int \<Rightarrow> int \<Rightarrow> int" where
  "selectBestPeer_loop [] best_peer min_load = best_peer"
| "selectBestPeer_loop ((peer_id, load) # rest) best_peer min_load =
     (if load < min_load then selectBestPeer_loop rest peer_id load
      else selectBestPeer_loop rest best_peer min_load)"

definition selectBestPeer_body :: "int int_map \<Rightarrow> int \<Rightarrow> int" where
  "selectBestPeer_body m d = (if m = [] then - 1 else selectBestPeer_loop m (- 1) d)"

definition selectBestPeer :: "PeerNode \<Rightarrow> int" where
  "selectBestPeer n = selectBestPeer_body (peer_loads n) (getCurrentLoad n)"

text \<open>
  The units of a node, as far as they touch the node's own fields. \<open>start\<close> and \<open>stop\<close>
  are the flag only; the threads they spawn and join are the loops below. A loop body
  is what the loop does once its wait has returned: with an empty queue the node is
  as it was, otherwise the front element is taken. An iteration is the loop test
  followed by the body.
\<close>

definition start :: "PeerNode \<Rightarrow> PeerNode" where
  "start n = n\<lparr>running := True\<rparr>"

definition stop :: "PeerNode \<Rightarrow> PeerNode" where
  "stop n = n\<lparr>running := False\<rparr>"

definition workerLoop_body :: "PeerNode \<Rightarrow> PeerNode" where
  "workerLoop_body n =
     (case task_queue n of
        [] \<Rightarrow> n
      | t # q \<Rightarrow> n\<lparr>task_queue := q, tasks_processed := to_int32 (tasks_processed n + 1)\<rparr>)"

definition workerLoop_iteration :: "PeerNode \<Rightarrow> PeerNode" where
  "workerLoop_iteration n = (if running n then workerLoop_body n else n)"

text \<open>The \<open>switch\<close> of \<open>messageProcessorLoop\<close> on a dequeued message.\<close>

definition processMessage :: "PeerNode \<Rightarrow> Message \<Rightarrow> PeerNode" where
  "processMessage n m =
     (case getType m of
        LOAD_UPDATE \<Rightarrow>
          n\<lparr>peer_loads := map_assign (peer_loads n) (getSenderId m) (getLoadValue m)\<rparr>
      | TASK_TRANSFER \<Rightarrow> (case getTask m of Some t \<Rightarrow> addTask n t | None \<Rightarrow> n)
      | PEER_DISCOVERY \<Rightarrow> addPeer n (getSenderId m)
      | TASK_REQUEST \<Rightarrow> n)"

definition messageProcessorLoop_body :: "PeerNode \<Rightarrow> PeerNode" where
  "messageProcessorLoop_body n =
     (case message_queue n of
        [] \<Rightarrow> n
      | m # q \<Rightarrow> processMessage (n\<lparr>message_queue := q\<rparr>) m)"

definition messageProcessorLoop_iteration :: "PeerNode \<Rightarrow> PeerNode" where
  "messageProcessorLoop_iteration n = (if running n then messageProcessorLoop_body n else n)"

subsection \<open>NetworkManager.h and the store\<close>

text \<open>
  The registry \<open>nodes_\<close> maps a node id to a \<open>PeerNode*\<close>, here the address of the node
  in the store. The registry holds addresses of live nodes only (\<open>main\<close> registers
  \<open>node.get()\<close>). A \<open>System\<close> is the store: the node and the manager at each address.
  An operation of a node takes the node's address, since it may deliver to any node of
  the store, itself included.
\<close>

record NetworkManager =
  nodes :: "nat int_map"

record System =
  node_at :: "nat \<Rightarrow> PeerNode"
  manager_at :: "nat \<Rightarrow> NetworkManager"

definition registerNode :: "NetworkManager \<Rightarrow> int \<Rightarrow> nat \<Rightarrow> NetworkManager" where
  "registerNode nm nid node = nm\<lparr>nodes := map_assign (nodes nm) nid node\<rparr>"

text \<open>\<open>receiver->handleMessage(message)\<close>\<close>

definition deliver :: "nat \<Rightarrow> Message \<Rightarrow> System \<Rightarrow> System" where
  "deliver receiver m s =
     s\<lparr>node_at := (node_at s)(receiver := handleMessage (node_at s receiver) m)\<rparr>"

definition sendMessage :: "nat \<Rightarrow> Message \<Rightarrow> System \<Rightarrow> System" where
  "sendMessage nmp m s =
     (case map_find (nodes (manager_at s nmp)) (getReceiverId m) of
        Some receiver \<Rightarrow> deliver receiver m s
      | None \<Rightarrow> s)"

text \<open>The two loops of \<open>broadcastMessage\<close>: collecting \<open>receivers\<close> under the lock,
  then delivering to each.\<close>

fun collect_receivers :: "nat int_map \<Rightarrow> int \<Rightarrow> nat list" where
  "collect_receivers [] sender = []"
| "collect_receivers ((nid, node) # rest) sender =
     (if nid \<noteq> sender then node # collect_receivers rest sender
      else collect_receivers rest sender)"

fun deliver_all :: "nat list \<Rightarrow> Message \<Rightarrow> System \<Rightarrow> System" where
  "deliver_all [] m s = s"
| "deliver_all (receiver # rest) m s = deliver_all rest m (deliver receiver m s)"

definition broadcastMessage :: "nat \<Rightarrow> int \<Rightarrow> Message \<Rightarrow> System \<Rightarrow> System" where
  "broadcastMessage nmp sender m s =
     deliver_all (collect_receivers (nodes (manager_at s nmp)) sender) m s"

definition getAllNodeIds :: "NetworkManager \<Rightarrow> int list" where
  "getAllNodeIds nm = map fst (nodes nm)"

subsection \<open>Offloading and the load monitor\<close>

definition update_node :: "nat \<Rightarrow> (PeerNode \<Rightarrow> PeerNode) \<Rightarrow> System \<Rightarrow> System" where
  "update_node a f s = s\<lparr>node_at := (node_at s)(a := f (node_at s a))\<rparr>"

text \<open>\<open>PeerNode::offloadTask\<close> of the node at address \<open>a\<close>. \<open>sendMessage\<close> returns
  nothing, so the branch taken does not depend on whether the receiver was found.\<close>

definition offloadTask :: "nat \<Rightarrow> Task \<Rightarrow> System \<Rightarrow> System" where
  "offloadTask a t s =
     (let best_peer = selectBestPeer (node_at s a) in
      case network_manager (node_at s a) of
        Some nmp \<Rightarrow>
          if best_peer \<noteq> - 1
          then sendMessage nmp
                 (setTask (new_Message TASK_TRANSFER (node_id (node_at s a)) best_peer) (Some t)) s
          else update_node a (\<lambda>n. addTask n t) s
      | None \<Rightarrow> update_node a (\<lambda>n. addTask n t) s)"

text \<open>The message a tick broadcasts.\<close>

definition load_msg :: "PeerNode \<Rightarrow> Message" where
  "load_msg n = setLoadValue (new_Message LOAD_UPDATE (node_id n) (- 1)) (getCurrentLoad n)"

text \<open>
  One iteration of \<open>loadMonitorLoop\<close> of the node at address \<open>a\<close>, after the sleep,
  run without another thread in between: sample the load, broadcast it, and above the
  threshold pop the front task and offload it.
\<close>

definition loadMonitorLoop_iteration :: "nat \<Rightarrow> System \<Rightarrow> System" where
  "loadMonitorLoop_iteration a s =
     (if \<not> running (node_at s a) then s
      else
        let current_load = getCurrentLoad (node_at s a);
            s1 = (case network_manager (node_at s a) of
                    Some nmp \<Rightarrow>
                      broadcastMessage nmp (node_id (node_at s a)) (load_msg (node_at s a)) s
                  | None \<Rightarrow> s)
        in if current_load > load_threshold (node_at s a)
           then (case task_queue (node_at s1 a) of
                   [] \<Rightarrow> s1
                 | t # q \<Rightarrow> offloadTask a t (update_node a (\<lambda>n. n\<lparr>task_queue := q\<rparr>) s1))
           else s1)"

subsection \<open>Histories of one node\<close>

text \<open>
  What can happen to one node, in any order: the public operations called from
  outside, and the steps of its own units. A worker or pump step is the loop body
  whatever the flag is, which covers a body that runs after \<open>stop\<close> has cleared the
  flag behind the loop test. \<open>MonitorPop\<close> is the pop of the load monitor; its
  reinsertion is an \<open>AddTask\<close>, and what any node broadcasts or sends reaches this
  node as \<open>HandleMessage\<close>.
\<close>

datatype Event =
    AddTask Task
  | HandleMessage Message
  | AddPeer int
  | Start
  | Stop
  | WorkerStep
  | PumpStep
  | MonitorPop

fun apply_event :: "PeerNode \<Rightarrow> Event \<Rightarrow> PeerNode" where
  "apply_event n (AddTask t) = addTask n t"
| "apply_event n (HandleMessage m) = handleMessage n m"
| "apply_event n (AddPeer p) = addPeer n p"
| "apply_event n Start = start n"
| "apply_event n Stop = stop n"
| "apply_event n WorkerStep = workerLoop_body n"
| "apply_event n PumpStep = messageProcessorLoop_body n"
| "apply_event n MonitorPop = (case task_queue n of [] \<Rightarrow> n | t # q \<Rightarrow> n\<lparr>task_queue := q\<rparr>)"

definition run_events :: "PeerNode \<Rightarrow> Event list \<Rightarrow> PeerNode" where
  "run_events n evs = foldl apply_event n evs"

text \<open>The senders of the \<open>LOAD_UPDATE\<close> messages handed to \<open>handleMessage\<close>.\<close>

fun load_update_senders :: "Event list \<Rightarrow> int set" where
  "load_update_senders [] = {}"
| "load_update_senders (HandleMessage m # evs) =
     (if msg_type m = LOAD_UPDATE then insert (sender_id m) (load_update_senders evs)
      else load_update_senders evs)"
| "load_update_senders (_ # evs) = load_update_senders evs"

text \<open>The peers a node has heard a load from, or is about to: the keys of its
  peer-load map and the senders of the \<open>LOAD_UPDATE\<close> messages waiting in its inbox.\<close>

definition heard :: "PeerNode \<Rightarrow> int set" where
  "heard n = fst ` set (peer_loads n)
           \<union> sender_id ` {m \<in> set (message_queue n). msg_type m = LOAD_UPDATE}"

subsection \<open>Example configurations\<close>

text \<open>
  The store that \<open>main\<close> builds for five nodes: node \<open>i\<close> lives at address \<open>i\<close>, holds
  the manager at address 0 and is registered there under its own id.
\<close>

definition main_registry :: NetworkManager where
  "main_registry =
     registerNode (registerNode (registerNode (registerNode (registerNode
       \<lparr>nodes = []\<rparr> 0 0) 1 1) 2 2) 3 3) 4 4"

definition mesh :: System where
  "mesh = \<lparr>node_at = (\<lambda>a. new_PeerNode (int a) 10 (Some 0)),
           manager_at = (\<lambda>a. main_registry)\<rparr>"

text \<open>A store in which node 0 is the only registered node.\<close>

definition solo :: System where
  "solo = \<lparr>node_at = (\<lambda>a. new_PeerNode (int a) 10 (Some 0)),
           manager_at = (\<lambda>a. registerNode \<lparr>nodes = []\<rparr> 0 0)\<rparr>"

text \<open>
  Two registered nodes with threshold 2. Node 0 runs, with a given queue and a given
  peer-load map; node 1 is as constructed.
\<close>

definition task1 :: Task where
  "task1 = \<lparr>task_id = 1, complexity = 50, creation_time = 0\<rparr>"

definition task2 :: Task where
  "task2 = \<lparr>task_id = 2, complexity = 50, creation_time = 1\<rparr>"

definition task3 :: Task where
  "task3 = \<lparr>task_id = 3, complexity = 50, creation_time = 2\<rparr>"

definition loaded_node :: "Task list \<Rightarrow> int int_map \<Rightarrow> PeerNode" where
  "loaded_node q view =
     (new_PeerNode 0 2 (Some 0))\<lparr>task_queue := q, peer_loads := view, running := True\<rparr>"

definition pair_with :: "PeerNode \<Rightarrow> System" where
  "pair_with n =
     \<lparr>node_at = (\<lambda>a. if a = 0 then n else new_PeerNode (int a) 2 (Some 0)),
      manager_at = (\<lambda>a. registerNode (registerNode \<lparr>nodes = []\<rparr> 0 0) 1 1)\<rparr>"

text \<open>
  Three registered nodes: node 0 is given, nodes 1 and 2 are as constructed. And a
  history of node 0 in which peers 1 and 2 are wired and only peer 2 reports a load.
\<close>

definition trio_with :: "PeerNode \<Rightarrow> System" where
  "trio_with n =
     \<lparr>node_at = (\<lambda>a. if a = 0 then n else new_PeerNode (int a) 2 (Some 0)),
      manager_at = (\<lambda>a. registerNode (registerNode (registerNode \<lparr>nodes = []\<rparr> 0 0) 1 1) 2 2)\<rparr>"

definition wired_events :: "Event list" where
  "wired_events =
     [AddPeer 1, AddPeer 2, AddTask task1, AddTask task2, AddTask task3,
      HandleMessage (setLoadValue (new_Message LOAD_UPDATE 2 (- 1)) 0), Start, PumpStep]"

section \<open>The ordered map\<close>

lemma map_wf_Nil: "map_wf []"
  by (simp add: map_wf_def)

lemma map_wf_Cons: "map_wf (e # m) \<longleftrightarrow> (\<forall>x \<in> set m. fst e < fst x) \<and> map_wf m"
  by (auto simp: map_wf_def)

lemma set_map_assign: "set (map_assign m k v) \<subseteq> insert (k, v) (set m)"
  by (induction m) auto

lemma keys_map_assign: "fst ` set (map_assign m k v) = insert k (fst ` set m)"
  by (induction m) auto

lemma map_wf_assign: "map_wf m \<Longrightarrow> map_wf (map_assign m k v)"
proof (induction m)
  case Nil
  show ?case by (simp add: map_wf_def)
next
  case (Cons e m)
  from Cons.prems have tl: "map_wf m" and hd: "\<forall>x \<in> set m. fst e < fst x"
    by (simp_all add: map_wf_Cons)
  show ?case
  proof (cases "fst e < k")
    case True
    have "\<forall>x \<in> set (map_assign m k v). fst e < fst x"
    proof
      fix x assume "x \<in> set (map_assign m k v)"
      then have "fst x \<in> insert k (fst ` set m)"
        using keys_map_assign [of m k v] by blast
      with hd True show "fst e < fst x" by auto
    qed
    with True Cons.IH [OF tl] show ?thesis by (simp add: map_wf_Cons)
  next
    case False
    with hd tl show ?thesis by (auto simp: map_wf_Cons)
  qed
qed

text \<open>Every peer-load map a node can come to hold is such a map.\<close>

lemma peer_loads_apply_event_wf:
  "map_wf (peer_loads n) \<Longrightarrow> map_wf (peer_loads (apply_event n ev))"
proof (cases ev)
  case PumpStep
  assume wf: "map_wf (peer_loads n)"
  show ?thesis
  proof (cases "message_queue n")
    case Nil
    with PumpStep wf show ?thesis by (simp add: messageProcessorLoop_body_def)
  next
    case (Cons m q)
    with PumpStep wf show ?thesis
      by (cases "getType m")
         (simp_all add: messageProcessorLoop_body_def processMessage_def map_wf_assign
            addTask_def addPeer_def split: option.splits)
  qed
qed (simp_all add: addTask_def handleMessage_def addPeer_def start_def stop_def
       workerLoop_body_def split: list.splits)

lemma peer_loads_run_events_wf:
  "map_wf (peer_loads (run_events (new_PeerNode i thr nm) evs))"
proof (induction evs rule: rev_induct)
  case Nil
  show ?case by (simp add: run_events_def new_PeerNode_def map_wf_Nil)
next
  case (snoc ev evs)
  from peer_loads_apply_event_wf [OF snoc.IH, of ev] show ?case
    by (simp add: run_events_def)
qed

section \<open>Peer selection\<close>

lemma loop_no_candidate:
  "\<forall>e \<in> set m. \<not> snd e < min_load \<Longrightarrow> selectBestPeer_loop m best_peer min_load = best_peer"
  by (induction m best_peer min_load rule: selectBestPeer_loop.induct) auto

text \<open>When some entry lies below the starting minimum, the loop returns the key of the
  first entry, in iteration order, that carries the least load of the map.\<close>

lemma loop_first_minimum:
  "\<exists>e \<in> set m. snd e < min_load \<Longrightarrow>
   \<exists>pre l post. m = pre @ (selectBestPeer_loop m best_peer min_load, l) # post
      \<and> l < min_load \<and> (\<forall>e \<in> set pre. l < snd e) \<and> (\<forall>e \<in> set post. l \<le> snd e)"
proof (induction m best_peer min_load rule: selectBestPeer_loop.induct)
  case (1 best_peer min_load)
  then show ?case by simp
next
  case (2 peer_id load rest best_peer min_load)
  show ?case
  proof (cases "load < min_load")
    case below: True
    show ?thesis
    proof (cases "\<exists>e \<in> set rest. snd e < load")
      case True
      from "2.IH"(1) [OF below True] obtain pre l post where
        split: "rest = pre @ (selectBestPeer_loop rest peer_id load, l) # post"
        and l: "l < load" "\<forall>e \<in> set pre. l < snd e" "\<forall>e \<in> set post. l \<le> snd e"
        by blast
      let ?r = "selectBestPeer_loop ((peer_id, load) # rest) best_peer min_load"
      have r: "?r = selectBestPeer_loop rest peer_id load" using below by simp
      have "(peer_id, load) # rest = ((peer_id, load) # pre) @ (?r, l) # post"
        using split r by simp
      moreover have "l < min_load" using l(1) below by simp
      moreover have "\<forall>e \<in> set ((peer_id, load) # pre). l < snd e" using l by simp
      ultimately show ?thesis using l(3) by blast
    next
      case False
      then have "selectBestPeer_loop rest peer_id load = peer_id"
        by (intro loop_no_candidate) simp
      with below have r: "selectBestPeer_loop ((peer_id, load) # rest) best_peer min_load = peer_id"
        by simp
      have "(peer_id, load) # rest = [] @ (peer_id, load) # rest" by simp
      moreover have "\<forall>e \<in> set rest. load \<le> snd e" using False by auto
      ultimately show ?thesis unfolding r using below by fastforce
    qed
  next
    case above: False
    with "2.prems" have ex: "\<exists>e \<in> set rest. snd e < min_load" by auto
    from "2.IH"(2) [OF above ex] obtain pre l post where
      split: "rest = pre @ (selectBestPeer_loop rest best_peer min_load, l) # post"
      and l: "l < min_load" "\<forall>e \<in> set pre. l < snd e" "\<forall>e \<in> set post. l \<le> snd e"
      by blast
    let ?r = "selectBestPeer_loop ((peer_id, load) # rest) best_peer min_load"
    have r: "?r = selectBestPeer_loop rest best_peer min_load" using above by simp
    have "(peer_id, load) # rest = ((peer_id, load) # pre) @ (?r, l) # post"
      using split r by simp
    moreover have "\<forall>e \<in> set ((peer_id, load) # pre). l < snd e" using l above by auto
    ultimately show ?thesis using l(1) l(3) by blast
  qed
qed

lemma map_wf_split:
  "map_wf (pre @ (k, l) # post) \<Longrightarrow>
   (\<forall>e \<in> set pre. fst e < k) \<and> (\<forall>e \<in> set post. k < fst e)"
  by (auto simp: map_wf_def sorted_wrt_append)

lemma map_wf_map_of:
  "map_wf m \<Longrightarrow> (k, l) \<in> set m \<Longrightarrow> map_of m k = Some l"
  by (rule map_of_is_SomeI) (simp_all add: map_wf_def strict_sorted_iff)

subsection \<open>C1: selection of the offload target\<close>

text \<open>
  C1. \<open>selectBestPeer\<close> is its body at the node's peer-load map and current load.
  For every peer-load map \<open>m\<close>, the keys ascending as a \<open>std::map\<close> iterates them, and
  every depth \<open>d\<close>, the body returns \<open>-1\<close> when the map is empty or no entry has a load
  below \<open>d\<close>. When some entry has a load below \<open>d\<close> it returns a peer of the map whose
  load is below \<open>d\<close> and is the least load of the whole map, and among the peers with
  that load the one with the smallest id. So the result is \<open>-1\<close> or such a peer.
\<close>

theorem selectBestPeer_body_correct:
  assumes wf: "map_wf m"
  shows "selectBestPeer n = selectBestPeer_body (peer_loads n) (getCurrentLoad n)
       \<and> ((\<forall>e \<in> set m. d \<le> snd e) \<longrightarrow> selectBestPeer_body m d = - 1)
       \<and> ((\<exists>e \<in> set m. snd e < d) \<longrightarrow>
            (\<exists>l. map_find m (selectBestPeer_body m d) = Some l \<and> l < d
                 \<and> (\<forall>e \<in> set m. l \<le> snd e \<and> (snd e = l \<longrightarrow> selectBestPeer_body m d \<le> fst e))))
       \<and> (selectBestPeer_body m d = - 1 \<or>
            (\<exists>l. map_find m (selectBestPeer_body m d) = Some l \<and> l < d
                 \<and> (\<forall>e \<in> set m. l \<le> snd e \<and> (snd e = l \<longrightarrow> selectBestPeer_body m d \<le> fst e))))"
proof -
  let ?r = "selectBestPeer_body m d"
  let ?found = "\<exists>l. map_find m ?r = Some l \<and> l < d
                 \<and> (\<forall>e \<in> set m. l \<le> snd e \<and> (snd e = l \<longrightarrow> ?r \<le> fst e))"
  have none: "?r = - 1" if "\<forall>e \<in> set m. d \<le> snd e"
  proof -
    from that have "\<forall>e \<in> set m. \<not> snd e < d" by auto
    then show ?thesis by (simp add: selectBestPeer_body_def loop_no_candidate)
  qed
  have some: ?found if ex: "\<exists>e \<in> set m. snd e < d"
  proof -
    from ex have ne: "m \<noteq> []" by auto
    then have r: "?r = selectBestPeer_loop m (- 1) d" by (simp add: selectBestPeer_body_def)
    from loop_first_minimum [OF ex, of "- 1"] r obtain pre l post where
      split: "m = pre @ (?r, l) # post" and l: "l < d"
      and pre: "\<forall>e \<in> set pre. l < snd e" and post: "\<forall>e \<in> set post. l \<le> snd e"
      by auto
    from wf split have keys: "\<forall>e \<in> set pre. fst e < ?r" "\<forall>e \<in> set post. ?r < fst e"
      using map_wf_split [of pre ?r l post] by auto
    have mem: "(?r, l) \<in> set m" by (subst split) simp
    have look: "map_find m ?r = Some l"
      unfolding map_find_def by (rule map_wf_map_of [OF wf mem])
    have "l \<le> snd e \<and> (snd e = l \<longrightarrow> ?r \<le> fst e)" if e: "e \<in> set m" for e
    proof -
      from e split have "e \<in> set pre \<or> e = (?r, l) \<or> e \<in> set post"
        by (metis Un_iff set_ConsD set_append)
      then show ?thesis using pre post keys by fastforce
    qed
    with look l show ?thesis by blast
  qed
  show ?thesis
  proof (intro conjI impI)
    show "selectBestPeer n = selectBestPeer_body (peer_loads n) (getCurrentLoad n)"
      by (simp add: selectBestPeer_def)
  next
    assume "\<forall>e \<in> set m. d \<le> snd e" then show "?r = - 1" by (rule none)
  next
    assume "\<exists>e \<in> set m. snd e < d" then show ?found by (rule some)
  next
    show "?r = - 1 \<or> ?found"
    proof (cases "\<exists>e \<in> set m. snd e < d")
      case True then show ?thesis using some by blast
    next
      case False
      then have "\<forall>e \<in> set m. d \<le> snd e" by auto
      then show ?thesis using none by blast
    qed
  qed
qed

text \<open>The tie-break scenario of the specification: peers 1 and 2 at depth 0, own
  depth 5; and two views without a cheaper peer.\<close>

theorem selectBestPeer_body_correct_witness:
  "map_wf [(1, 0), (2, 0), (3, 4 :: int)]
   \<and> selectBestPeer_body [(1, 0), (2, 0), (3, 4)] 5 = 1
   \<and> map_find [(1, 0), (2, 0), (3, 4 :: int)] (selectBestPeer_body [(1, 0), (2, 0), (3, 4)] 5) = Some 0
   \<and> selectBestPeer_body [(1, 5), (2, 7)] 5 = - 1
   \<and> selectBestPeer_body [] 5 = - 1"
proof -
  let ?m = "[(1, 0), (2, 0), (3, 4)] :: int int_map"
  have wf: "map_wf ?m" by (simp add: map_wf_def)
  have ex: "\<exists>e \<in> set ?m. snd e < 5" by simp
  from selectBestPeer_body_correct [OF wf, where d = 5] ex
  obtain l where l: "map_find ?m (selectBestPeer_body ?m 5) = Some l"
    and least: "\<forall>e \<in> set ?m. l \<le> snd e \<and> (snd e = l \<longrightarrow> selectBestPeer_body ?m 5 \<le> fst e)"
    by blast
  have r: "selectBestPeer_body ?m 5 = 1" by (simp add: selectBestPeer_body_def)
  have "selectBestPeer_body [(1, 5), (2, 7)] 5 = - 1" by (simp add: selectBestPeer_body_def)
  moreover have "selectBestPeer_body [] 5 = - 1" by (simp add: selectBestPeer_body_def)
  moreover from l r have "map_find ?m (selectBestPeer_body ?m 5) = Some 0"
    by (simp add: map_find_def)
  ultimately show ?thesis using wf r by simp
qed

section \<open>The node's public operations\<close>

subsection \<open>C6: messages handed to a stopped node\<close>

text \<open>
  C6 as stated: \<open>handleMessage\<close> on a stopped node drops the message and leaves the
  inbox unchanged. It fails: a node that was started and stopped again, with an empty
  inbox, holds the message after the call, and once the node runs again the pump
  dispatches it into the peer-load map.
\<close>

theorem handleMessage_stopped_counterexample:
  "\<not> running (stop (start (new_PeerNode 1 10 None)))
   \<and> message_queue (stop (start (new_PeerNode 1 10 None))) = []
   \<and> message_queue (handleMessage (stop (start (new_PeerNode 1 10 None)))
        (setLoadValue (new_Message LOAD_UPDATE 0 (- 1)) 4))
      = [setLoadValue (new_Message LOAD_UPDATE 0 (- 1)) 4]
   \<and> peer_loads (messageProcessorLoop_iteration (start (handleMessage
        (stop (start (new_PeerNode 1 10 None)))
        (setLoadValue (new_Message LOAD_UPDATE 0 (- 1)) 4)))) = [(0, 4)]"
  by (simp add: stop_def start_def new_PeerNode_def handleMessage_def setLoadValue_def
      new_Message_def messageProcessorLoop_iteration_def messageProcessorLoop_body_def
      processMessage_def getType_def getSenderId_def getLoadValue_def)

text \<open>
  C6, amended: \<open>handleMessage\<close> appends the message at the tail of the inbox whether the
  node is running or stopped, and changes no other field of the node; stopping the
  node before or after the call gives the same node.
\<close>

theorem handleMessage_appends:
  "message_queue (handleMessage n m) = message_queue n @ [m]
   \<and> (handleMessage n m)\<lparr>message_queue := message_queue n\<rparr> = n
   \<and> handleMessage (stop n) m = stop (handleMessage n m)
   \<and> running (handleMessage n m) = running n"
  by (simp add: handleMessage_def stop_def)

subsection \<open>C7: payload accessors\<close>

text \<open>
  C7 as stated: reading a payload that does not belong to the message's variant gives
  an absence or fails. It fails: \<open>getTask\<close> on a \<open>LOAD_UPDATE\<close> message that carries a
  task returns the task, and \<open>getLoadValue\<close> on a \<open>TASK_TRANSFER\<close> message whose load was
  set returns that load.
\<close>

theorem accessor_wrong_variant_counterexample:
  "getType (setTask (new_Message LOAD_UPDATE 0 (- 1))
       (Some \<lparr>task_id = 7, complexity = 50, creation_time = 0\<rparr>)) \<noteq> TASK_TRANSFER
   \<and> getTask (setTask (new_Message LOAD_UPDATE 0 (- 1))
       (Some \<lparr>task_id = 7, complexity = 50, creation_time = 0\<rparr>))
     = Some \<lparr>task_id = 7, complexity = 50, creation_time = 0\<rparr>
   \<and> getType (setLoadValue (new_Message TASK_TRANSFER 0 1) 5) \<noteq> LOAD_UPDATE
   \<and> getLoadValue (setLoadValue (new_Message TASK_TRANSFER 0 1) 5) = 5"
  by (simp add: getType_def getTask_def setTask_def new_Message_def setLoadValue_def
      getLoadValue_def)

text \<open>
  C7, amended: the payload accessors do not look at the message's type. On a message
  as constructed, of any type, \<open>getLoadValue\<close> is 0 and \<open>getTask\<close> is the null pointer;
  after \<open>setLoadValue\<close> or \<open>setTask\<close>, on a message of any type, the accessor returns
  the value that was set; neither setter changes the other payload or the type.
\<close>

theorem accessors_ignore_variant:
  "getLoadValue (new_Message ty s r) = 0
   \<and> getTask (new_Message ty s r) = None
   \<and> getLoadValue (setLoadValue m v) = v
   \<and> getTask (setTask m t) = t
   \<and> getLoadValue (setTask m t) = getLoadValue m
   \<and> getTask (setLoadValue m v) = getTask m
   \<and> getType (setLoadValue m v) = getType m
   \<and> getType (setTask m t) = getType m"
  by (simp add: getType_def getTask_def setTask_def new_Message_def setLoadValue_def
      getLoadValue_def)

subsection \<open>C8: \<open>addPeer\<close> is idempotent\<close>

text \<open>
  C8. For every node and every peer id \<open>p\<close>, \<open>addPeer\<close> called twice with \<open>p\<close> gives the
  node, and so the peer list, that one call gives; and on a node whose peer list
  already holds \<open>p\<close> the call changes nothing.
\<close>

theorem addPeer_idempotent:
  "addPeer (addPeer n p) p = addPeer n p
   \<and> getPeers (addPeer (addPeer n p) p) = getPeers (addPeer n p)
   \<and> (p \<in> set (peers n) \<longrightarrow> addPeer n p = n)"
  by (simp add: addPeer_def getPeers_def)

theorem addPeer_idempotent_witness:
  "2 \<in> set (peers (addPeer (addPeer (new_PeerNode 0 10 None) 1) 2))
   \<and> addPeer (addPeer (addPeer (new_PeerNode 0 10 None) 1) 2) 2
     = addPeer (addPeer (new_PeerNode 0 10 None) 1) 2
   \<and> getPeers (addPeer (addPeer (addPeer (new_PeerNode 0 10 None) 1) 2) 2) = [1, 2]"
  using addPeer_idempotent [of "addPeer (addPeer (new_PeerNode 0 10 None) 1) 2" 2]
  by (simp add: addPeer_def getPeers_def new_PeerNode_def)

subsection \<open>C10: \<open>addPeer\<close> has no self-check\<close>

text \<open>
  C10. For every peer id \<open>p\<close> that is not in the peer list, \<open>addPeer\<close> appends \<open>p\<close> at
  the end of the list, also when \<open>p\<close> is the node's own id: the node is then a member
  of its own peer list.
\<close>

theorem addPeer_no_self_check:
  "p \<notin> set (peers n) \<Longrightarrow>
     peers (addPeer n p) = peers n @ [p]
     \<and> (p = node_id n \<longrightarrow> node_id (addPeer n p) \<in> set (getPeers (addPeer n p)))"
  by (simp add: addPeer_def getPeers_def)

theorem addPeer_no_self_check_witness:
  "node_id (new_PeerNode 3 10 None) = 3
   \<and> 3 \<notin> set (peers (new_PeerNode 3 10 None))
   \<and> peers (addPeer (new_PeerNode 3 10 None) 3) = [3]
   \<and> node_id (addPeer (new_PeerNode 3 10 None) 3) \<in> set (getPeers (addPeer (new_PeerNode 3 10 None) 3))"
proof -
  have fresh: "3 \<notin> set (peers (new_PeerNode 3 10 None))" by (simp add: new_PeerNode_def)
  from addPeer_no_self_check [OF fresh] show ?thesis
    by (simp add: new_PeerNode_def)
qed

section \<open>The transport\<close>

lemma manager_at_deliver: "manager_at (deliver r m s) = manager_at s"
  by (simp add: deliver_def)

lemma node_at_deliver:
  "node_at (deliver r m s) b = (if b = r then handleMessage (node_at s r) m else node_at s b)"
  by (simp add: deliver_def)

lemma manager_at_deliver_all: "manager_at (deliver_all rs m s) = manager_at s"
  by (induction rs arbitrary: s) (simp_all add: manager_at_deliver)

lemma node_at_deliver_all:
  "node_at (deliver_all rs m s) b =
     (node_at s b)\<lparr>message_queue := message_queue (node_at s b) @ replicate (count_list rs b) m\<rparr>"
proof (induction rs arbitrary: s)
  case Nil
  show ?case by simp
next
  case (Cons r rs)
  show ?case
    by (simp add: Cons.IH node_at_deliver handleMessage_def replicate_append_same)
qed

lemma collect_receivers_filter:
  "collect_receivers reg sender = map snd (filter (\<lambda>e. fst e \<noteq> sender) reg)"
  by (induction reg sender rule: collect_receivers.induct) simp_all

lemma count_collect_receivers:
  "count_list (collect_receivers reg sender) b =
     length (filter (\<lambda>e. fst e \<noteq> sender \<and> snd e = b) reg)"
  by (induction reg sender rule: collect_receivers.induct) simp_all

lemma node_at_broadcastMessage:
  "node_at (broadcastMessage nmp sender m s) b =
     (node_at s b)\<lparr>message_queue := message_queue (node_at s b) @
        replicate (length (filter (\<lambda>e. fst e \<noteq> sender \<and> snd e = b) (nodes (manager_at s nmp)))) m\<rparr>"
  by (simp add: broadcastMessage_def node_at_deliver_all count_collect_receivers)

lemma manager_at_broadcastMessage:
  "manager_at (broadcastMessage nmp sender m s) = manager_at s"
  by (simp add: broadcastMessage_def manager_at_deliver_all)

lemma single_registration:
  "distinct (map snd reg) \<Longrightarrow> (k, b) \<in> set reg \<Longrightarrow>
   filter (\<lambda>e. fst e \<noteq> sender \<and> snd e = b) reg = (if k \<noteq> sender then [(k, b)] else [])"
proof (induction reg)
  case Nil
  then show ?case by simp
next
  case (Cons e reg)
  show ?case
  proof (cases "e = (k, b)")
    case True
    from Cons.prems(1) True have "b \<notin> snd ` set reg" by simp
    then have "\<forall>x \<in> set reg. snd x \<noteq> b" by force
    then have "filter (\<lambda>e. fst e \<noteq> sender \<and> snd e = b) reg = []"
      by (simp add: filter_empty_conv)
    with True show ?thesis by simp
  next
    case False
    with Cons.prems have mem: "(k, b) \<in> set reg" and d: "distinct (map snd reg)" by auto
    from mem have "b \<in> snd ` set reg" by force
    with Cons.prems(1) have "snd e \<noteq> b" by auto
    with Cons.IH [OF d mem] show ?thesis by simp
  qed
qed

subsection \<open>C5: broadcast excludes the sender\<close>

text \<open>
  C5. For every registry and every sender id, \<open>broadcastMessage\<close> hands the message once
  to the node of every registered id other than the sender's, and for the sender's own
  registration to nobody: the inbox of the node at address \<open>b\<close> grows by one copy of
  the message for each registered id, other than the sender's, that points to \<open>b\<close>,
  and nothing else in the store changes. When every node is registered under one id,
  each registered node other than the sender's gains exactly one message and the
  sender's node none. With only the sender registered the store is unchanged.
\<close>

theorem broadcastMessage_delivery:
  "node_at (broadcastMessage nmp sender m s) b =
     (node_at s b)\<lparr>message_queue := message_queue (node_at s b) @
        replicate (length (filter (\<lambda>e. fst e \<noteq> sender \<and> snd e = b) (nodes (manager_at s nmp)))) m\<rparr>
   \<and> manager_at (broadcastMessage nmp sender m s) = manager_at s
   \<and> (distinct (map snd (nodes (manager_at s nmp))) \<longrightarrow>
        (\<forall>e \<in> set (nodes (manager_at s nmp)).
           message_queue (node_at (broadcastMessage nmp sender m s) (snd e)) =
             message_queue (node_at s (snd e)) @ (if fst e \<noteq> sender then [m] else [])))
   \<and> ((\<forall>e \<in> set (nodes (manager_at s nmp)). fst e = sender) \<longrightarrow>
        broadcastMessage nmp sender m s = s)"
proof (intro conjI impI ballI)
  show "node_at (broadcastMessage nmp sender m s) b =
     (node_at s b)\<lparr>message_queue := message_queue (node_at s b) @
        replicate (length (filter (\<lambda>e. fst e \<noteq> sender \<and> snd e = b) (nodes (manager_at s nmp)))) m\<rparr>"
    by (rule node_at_broadcastMessage)
next
  show "manager_at (broadcastMessage nmp sender m s) = manager_at s"
    by (rule manager_at_broadcastMessage)
next
  fix e
  assume d: "distinct (map snd (nodes (manager_at s nmp)))"
    and e: "e \<in> set (nodes (manager_at s nmp))"
  from e have "(fst e, snd e) \<in> set (nodes (manager_at s nmp))" by simp
  from single_registration [OF d this, of sender]
  show "message_queue (node_at (broadcastMessage nmp sender m s) (snd e)) =
          message_queue (node_at s (snd e)) @ (if fst e \<noteq> sender then [m] else [])"
    by (simp add: node_at_broadcastMessage)
next
  assume "\<forall>e \<in> set (nodes (manager_at s nmp)). fst e = sender"
  then have "filter (\<lambda>e. fst e \<noteq> sender) (nodes (manager_at s nmp)) = []"
    by (simp add: filter_empty_conv)
  then show "broadcastMessage nmp sender m s = s"
    by (simp add: broadcastMessage_def collect_receivers_filter)
qed

text \<open>The five nodes of \<open>main\<close> with node 2 broadcasting, and a lone node.\<close>

theorem broadcastMessage_delivery_witness:
  "distinct (map snd (nodes (manager_at mesh 0)))
   \<and> getAllNodeIds (manager_at mesh 0) = [0, 1, 2, 3, 4]
   \<and> message_queue (node_at (broadcastMessage 0 2 (load_msg (node_at mesh 2)) mesh) 0) = [load_msg (node_at mesh 2)]
   \<and> message_queue (node_at (broadcastMessage 0 2 (load_msg (node_at mesh 2)) mesh) 1) = [load_msg (node_at mesh 2)]
   \<and> message_queue (node_at (broadcastMessage 0 2 (load_msg (node_at mesh 2)) mesh) 2) = []
   \<and> message_queue (node_at (broadcastMessage 0 2 (load_msg (node_at mesh 2)) mesh) 3) = [load_msg (node_at mesh 2)]
   \<and> message_queue (node_at (broadcastMessage 0 2 (load_msg (node_at mesh 2)) mesh) 4) = [load_msg (node_at mesh 2)]
   \<and> getAllNodeIds (manager_at solo 0) = [0]
   \<and> broadcastMessage 0 0 (load_msg (node_at solo 0)) solo = solo"
proof -
  let ?m = "load_msg (node_at mesh 2)"
  have reg: "nodes (manager_at mesh 0) = [(0, 0), (1, 1), (2, 2), (3, 3), (4, 4)]"
    by (simp add: mesh_def main_registry_def registerNode_def)
  have d: "distinct (map snd (nodes (manager_at mesh 0)))"
    by (simp add: reg)
  have empty: "message_queue (node_at mesh b) = []" for b
    by (simp add: mesh_def new_PeerNode_def)
  from broadcastMessage_delivery [of 0 2 ?m mesh] d
  have each: "\<forall>e \<in> set (nodes (manager_at mesh 0)).
           message_queue (node_at (broadcastMessage 0 2 ?m mesh) (snd e)) =
             message_queue (node_at mesh (snd e)) @ (if fst e \<noteq> 2 then [?m] else [])"
    by blast
  have only: "\<forall>e \<in> set (nodes (manager_at solo 0)). fst e = 0"
    by (simp add: solo_def registerNode_def)
  from broadcastMessage_delivery [of 0 0 "load_msg (node_at solo 0)" solo] only
  have none: "broadcastMessage 0 0 (load_msg (node_at solo 0)) solo = solo"
    by blast
  from each have "message_queue (node_at (broadcastMessage 0 2 ?m mesh) 0) = [?m]"
    "message_queue (node_at (broadcastMessage 0 2 ?m mesh) 1) = [?m]"
    "message_queue (node_at (broadcastMessage 0 2 ?m mesh) 2) = []"
    "message_queue (node_at (broadcastMessage 0 2 ?m mesh) 3) = [?m]"
    "message_queue (node_at (broadcastMessage 0 2 ?m mesh) 4) = [?m]"
    unfolding reg by (simp_all add: empty)
  moreover have "getAllNodeIds (manager_at mesh 0) = [0, 1, 2, 3, 4]"
    by (simp add: getAllNodeIds_def reg)
  moreover have "getAllNodeIds (manager_at solo 0) = [0]"
    by (simp add: getAllNodeIds_def solo_def registerNode_def)
  ultimately show ?thesis using d none by simp
qed

section \<open>The load monitor\<close>

lemma selectBestPeer_fields:
  "peer_loads n' = peer_loads n \<Longrightarrow> task_queue n' = task_queue n \<Longrightarrow>
   selectBestPeer n' = selectBestPeer n"
  by (simp add: selectBestPeer_def getCurrentLoad_def)

lemma selectBestPeer_body_none:
  "m = [] \<or> (\<forall>e \<in> set m. d \<le> snd e) \<Longrightarrow> selectBestPeer_body m d = - 1"
proof -
  assume "m = [] \<or> (\<forall>e \<in> set m. d \<le> snd e)"
  then have "\<forall>e \<in> set m. \<not> snd e < d" by auto
  then show ?thesis by (simp add: selectBestPeer_body_def loop_no_candidate)
qed

text \<open>The state after the broadcast of a tick.\<close>

lemma gossip_node:
  "\<exists>k. node_at (case network_manager n of
                   Some nmp \<Rightarrow> broadcastMessage nmp i m s
                 | None \<Rightarrow> s) b
        = (node_at s b)\<lparr>message_queue := message_queue (node_at s b) @ replicate k m\<rparr>"
proof (cases "network_manager n")
  case None
  then show ?thesis by (intro exI [of _ 0]) simp
next
  case (Some nmp)
  then show ?thesis by (simp add: node_at_broadcastMessage) blast
qed

lemma node_at_update_node:
  "node_at (update_node a f s) b = (if b = a then f (node_at s a) else node_at s b)"
  by (simp add: update_node_def)

lemma manager_at_update_node: "manager_at (update_node a f s) = manager_at s"
  by (simp add: update_node_def)

lemma offloadTask_no_peer:
  "selectBestPeer (node_at s a) = - 1 \<Longrightarrow> offloadTask a t s = update_node a (\<lambda>n. addTask n t) s"
  by (simp add: offloadTask_def Let_def split: option.splits)

lemma offloadTask_unregistered:
  "network_manager (node_at s a) = Some nmp \<Longrightarrow> selectBestPeer (node_at s a) \<noteq> - 1 \<Longrightarrow>
   map_find (nodes (manager_at s nmp)) (selectBestPeer (node_at s a)) = None \<Longrightarrow>
   offloadTask a t s = s"
  by (simp add: offloadTask_def Let_def sendMessage_def getReceiverId_def setTask_def new_Message_def)

lemmas eval_defs = loadMonitorLoop_iteration_def Let_def pair_with_def loaded_node_def
  new_PeerNode_def getCurrentLoad_def to_int32_def registerNode_def broadcastMessage_def
  deliver_def handleMessage_def load_msg_def setLoadValue_def new_Message_def
  offloadTask_def selectBestPeer_def selectBestPeer_body_def update_node_def addTask_def
  sendMessage_def map_find_def getReceiverId_def setTask_def

subsection \<open>C4: the threshold is strict\<close>

text \<open>
  C4. In an iteration of the load monitor whose sampled load is not above the
  threshold (equal to it in particular), no task is popped and no task is sent: the
  task queue of every node is as before, and every inbox has only gained copies of the
  \<open>LOAD_UPDATE\<close> message of this tick. So a queue changes, or a \<open>TASK_TRANSFER\<close> is
  delivered, only when the sampled load is strictly above the threshold.
\<close>

theorem no_offload_at_threshold:
  assumes le: "getCurrentLoad (node_at s a) \<le> load_threshold (node_at s a)"
  shows "task_queue (node_at (loadMonitorLoop_iteration a s) b) = task_queue (node_at s b)
       \<and> (\<exists>k. message_queue (node_at (loadMonitorLoop_iteration a s) b) =
                message_queue (node_at s b) @ replicate k (load_msg (node_at s a)))
       \<and> getType (load_msg (node_at s a)) = LOAD_UPDATE"
proof (cases "running (node_at s a)")
  case False
  then have same: "loadMonitorLoop_iteration a s = s"
    by (simp add: loadMonitorLoop_iteration_def)
  have "message_queue (node_at s b) = message_queue (node_at s b) @ replicate 0 (load_msg (node_at s a))"
    by simp
  then have "\<exists>k. message_queue (node_at s b) = message_queue (node_at s b) @ replicate k (load_msg (node_at s a))"
    by blast
  then show ?thesis
    by (simp add: same load_msg_def getType_def setLoadValue_def new_Message_def)
next
  case True
  let ?s1 = "case network_manager (node_at s a) of
               Some nmp \<Rightarrow> broadcastMessage nmp (node_id (node_at s a)) (load_msg (node_at s a)) s
             | None \<Rightarrow> s"
  from True le have it: "loadMonitorLoop_iteration a s = ?s1"
    by (simp add: loadMonitorLoop_iteration_def Let_def)
  from gossip_node [where n = "node_at s a" and i = "node_id (node_at s a)"
      and m = "load_msg (node_at s a)" and s = s and b = b]
  obtain k where k: "node_at ?s1 b =
      (node_at s b)\<lparr>message_queue := message_queue (node_at s b) @ replicate k (load_msg (node_at s a))\<rparr>"
    by blast
  have "task_queue (node_at ?s1 b) = task_queue (node_at s b)"
    by (simp add: k)
  moreover have "\<exists>k. message_queue (node_at ?s1 b) =
                message_queue (node_at s b) @ replicate k (load_msg (node_at s a))"
    using k by (intro exI [of _ k]) simp
  moreover have "getType (load_msg (node_at s a)) = LOAD_UPDATE"
    by (simp add: load_msg_def getType_def setLoadValue_def new_Message_def)
  ultimately show ?thesis unfolding it by blast
qed

text \<open>Two queued tasks against a threshold of 2.\<close>

theorem no_offload_at_threshold_witness:
  "getCurrentLoad (node_at (pair_with (loaded_node [task1, task2] [(1, 0)])) 0) = 2
   \<and> load_threshold (node_at (pair_with (loaded_node [task1, task2] [(1, 0)])) 0) = 2
   \<and> task_queue (node_at (loadMonitorLoop_iteration 0
         (pair_with (loaded_node [task1, task2] [(1, 0)]))) 0) = [task1, task2]
   \<and> task_queue (node_at (loadMonitorLoop_iteration 0
         (pair_with (loaded_node [task1, task2] [(1, 0)]))) 1) = []
   \<and> message_queue (node_at (loadMonitorLoop_iteration 0
         (pair_with (loaded_node [task1, task2] [(1, 0)]))) 1)
       = [setLoadValue (new_Message LOAD_UPDATE 0 (- 1)) 2]"
proof -
  let ?s = "pair_with (loaded_node [task1, task2] [(1, 0)])"
  have load: "getCurrentLoad (node_at ?s 0) = 2" and thr: "load_threshold (node_at ?s 0) = 2"
    by (simp_all add: eval_defs)
  then have le: "getCurrentLoad (node_at ?s 0) \<le> load_threshold (node_at ?s 0)" by simp
  from no_offload_at_threshold [OF le, of 0]
  have q0: "task_queue (node_at (loadMonitorLoop_iteration 0 ?s) 0) = task_queue (node_at ?s 0)"
    by blast
  from no_offload_at_threshold [OF le, of 1]
  have q1: "task_queue (node_at (loadMonitorLoop_iteration 0 ?s) 1) = task_queue (node_at ?s 1)"
    by blast
  have "task_queue (node_at ?s 0) = [task1, task2]" "task_queue (node_at ?s 1) = []"
    by (simp_all add: eval_defs)
  moreover have "message_queue (node_at (loadMonitorLoop_iteration 0 ?s) 1)
       = [setLoadValue (new_Message LOAD_UPDATE 0 (- 1)) 2]"
    by (simp add: eval_defs)
  ultimately show ?thesis using load thr q0 q1 by simp
qed

subsection \<open>C3: no cheaper peer\<close>

text \<open>
  C3. In an iteration of the load monitor above the threshold, with \<open>t\<close> at the head of
  the queue, if peer selection returns \<open>-1\<close> (as it does when the peer-load map is
  empty, or when no entry is below the load that \<open>selectBestPeer\<close> reads, which is the
  load after the pop), then \<open>t\<close> is put back at the tail of the node's queue: the queue
  holds the same tasks as before, as a multiset; no other queue changes and no inbox
  gains anything but the \<open>LOAD_UPDATE\<close> of the tick.
\<close>

theorem offload_without_peer_reinserts:
  assumes run: "running (node_at s a)"
    and above: "load_threshold (node_at s a) < getCurrentLoad (node_at s a)"
    and queue: "task_queue (node_at s a) = t # q"
    and absent: "selectBestPeer ((node_at s a)\<lparr>task_queue := q\<rparr>) = - 1
               \<or> peer_loads (node_at s a) = []
               \<or> (\<forall>e \<in> set (peer_loads (node_at s a)).
                     getCurrentLoad ((node_at s a)\<lparr>task_queue := q\<rparr>) \<le> snd e)"
  shows "task_queue (node_at (loadMonitorLoop_iteration a s) a) = q @ [t]
       \<and> mset (task_queue (node_at (loadMonitorLoop_iteration a s) a)) = mset (task_queue (node_at s a))
       \<and> (b \<noteq> a \<longrightarrow> task_queue (node_at (loadMonitorLoop_iteration a s) b) = task_queue (node_at s b))
       \<and> (\<exists>k. message_queue (node_at (loadMonitorLoop_iteration a s) b) =
                message_queue (node_at s b) @ replicate k (load_msg (node_at s a)))"
proof -
  let ?m = "load_msg (node_at s a)"
  let ?s1 = "case network_manager (node_at s a) of
               Some nmp \<Rightarrow> broadcastMessage nmp (node_id (node_at s a)) ?m s
             | None \<Rightarrow> s"
  let ?s2 = "update_node a (\<lambda>n. n\<lparr>task_queue := q\<rparr>) ?s1"
  have node1: "\<exists>k. node_at ?s1 c =
      (node_at s c)\<lparr>message_queue := message_queue (node_at s c) @ replicate k ?m\<rparr>" for c
    by (rule gossip_node)
  from node1 [of a] obtain ka where ka: "node_at ?s1 a =
      (node_at s a)\<lparr>message_queue := message_queue (node_at s a) @ replicate ka ?m\<rparr>"
    by blast
  from node1 [of b] obtain kb where kb: "node_at ?s1 b =
      (node_at s b)\<lparr>message_queue := message_queue (node_at s b) @ replicate kb ?m\<rparr>"
    by blast
  have q1: "task_queue (node_at ?s1 a) = t # q" by (simp add: ka queue)
  from run above q1 have it: "loadMonitorLoop_iteration a s = offloadTask a t ?s2"
    by (simp add: loadMonitorLoop_iteration_def Let_def)
  have node2: "node_at ?s2 a = (node_at ?s1 a)\<lparr>task_queue := q\<rparr>"
    by (simp add: node_at_update_node)
  have sel: "selectBestPeer (node_at ?s2 a) = selectBestPeer ((node_at s a)\<lparr>task_queue := q\<rparr>)"
    by (rule selectBestPeer_fields) (simp_all add: node2 ka)
  have none: "selectBestPeer ((node_at s a)\<lparr>task_queue := q\<rparr>) = - 1"
    using absent
  proof (elim disjE)
    assume "peer_loads (node_at s a) = []"
    then show ?thesis by (simp add: selectBestPeer_def selectBestPeer_body_none)
  next
    assume "\<forall>e \<in> set (peer_loads (node_at s a)).
              getCurrentLoad ((node_at s a)\<lparr>task_queue := q\<rparr>) \<le> snd e"
    then show ?thesis by (simp add: selectBestPeer_def selectBestPeer_body_none)
  qed
  from sel none have "offloadTask a t ?s2 = update_node a (\<lambda>n. addTask n t) ?s2"
    by (intro offloadTask_no_peer) simp
  with it have final: "loadMonitorLoop_iteration a s = update_node a (\<lambda>n. addTask n t) ?s2"
    by simp
  have qa: "task_queue (node_at (loadMonitorLoop_iteration a s) a) = q @ [t]"
    unfolding final by (simp add: node_at_update_node addTask_def)
  have other: "task_queue (node_at (loadMonitorLoop_iteration a s) b) = task_queue (node_at s b)"
    if "b \<noteq> a"
    unfolding final using that by (simp add: node_at_update_node kb)
  have inbox: "message_queue (node_at (loadMonitorLoop_iteration a s) b) =
                message_queue (node_at s b) @ replicate kb ?m"
  proof (cases "b = a")
    case True
    with kb have "node_at ?s1 a =
        (node_at s a)\<lparr>message_queue := message_queue (node_at s a) @ replicate kb ?m\<rparr>"
      by simp
    then show ?thesis unfolding final True
      by (simp add: node_at_update_node addTask_def)
  next
    case False
    then show ?thesis unfolding final by (simp add: node_at_update_node kb)
  qed
  from qa queue have "mset (task_queue (node_at (loadMonitorLoop_iteration a s) a)) =
      mset (task_queue (node_at s a))" by simp
  with qa other inbox show ?thesis by blast
qed

text \<open>Three queued tasks, threshold 2, nothing heard from any peer.\<close>

theorem offload_without_peer_reinserts_witness:
  "running (node_at (pair_with (loaded_node [task1, task2, task3] [])) 0)
   \<and> load_threshold (node_at (pair_with (loaded_node [task1, task2, task3] [])) 0)
       < getCurrentLoad (node_at (pair_with (loaded_node [task1, task2, task3] [])) 0)
   \<and> task_queue (node_at (pair_with (loaded_node [task1, task2, task3] [])) 0) = [task1, task2, task3]
   \<and> peer_loads (node_at (pair_with (loaded_node [task1, task2, task3] [])) 0) = []
   \<and> task_queue (node_at (loadMonitorLoop_iteration 0
         (pair_with (loaded_node [task1, task2, task3] []))) 0) = [task2, task3, task1]"
proof -
  let ?s = "pair_with (loaded_node [task1, task2, task3] [])"
  have run: "running (node_at ?s 0)"
    and above: "load_threshold (node_at ?s 0) < getCurrentLoad (node_at ?s 0)"
    and queue: "task_queue (node_at ?s 0) = task1 # [task2, task3]"
    and view: "peer_loads (node_at ?s 0) = []"
    by (simp_all add: pair_with_def loaded_node_def new_PeerNode_def getCurrentLoad_def to_int32_def)
  from view have absent: "selectBestPeer ((node_at ?s 0)\<lparr>task_queue := [task2, task3]\<rparr>) = - 1
               \<or> peer_loads (node_at ?s 0) = []
               \<or> (\<forall>e \<in> set (peer_loads (node_at ?s 0)).
                     getCurrentLoad ((node_at ?s 0)\<lparr>task_queue := [task2, task3]\<rparr>) \<le> snd e)"
    by simp
  from offload_without_peer_reinserts [OF run above queue absent]
  have "task_queue (node_at (loadMonitorLoop_iteration 0 ?s) 0) = [task2, task3, task1]"
    by simp
  with run above queue view show ?thesis by simp
qed

subsection \<open>C2: a transfer to an unregistered receiver\<close>

text \<open>
  C2 as stated: when the unicast of the \<open>TASK_TRANSFER\<close> fails because the receiver is
  not registered, the popped task is put back into the sender's queue. It fails: node 0
  holds three tasks against a threshold of 2 and has heard of a peer 7 with load 0,
  which is not in the registry. After the iteration the queue of node 0 holds the
  second and third task only, and the first is in no queue and in no inbox of the two
  registered nodes.
\<close>

theorem offload_unknown_receiver_counterexample:
  "selectBestPeer ((node_at (pair_with (loaded_node [task1, task2, task3] [(7, 0)])) 0)
       \<lparr>task_queue := [task2, task3]\<rparr>) = 7
   \<and> map_find (nodes (manager_at (pair_with (loaded_node [task1, task2, task3] [(7, 0)])) 0)) 7 = None
   \<and> task_queue (node_at (loadMonitorLoop_iteration 0
         (pair_with (loaded_node [task1, task2, task3] [(7, 0)]))) 0) = [task2, task3]
   \<and> task1 \<notin> set (task_queue (node_at (loadMonitorLoop_iteration 0
         (pair_with (loaded_node [task1, task2, task3] [(7, 0)]))) 0))
   \<and> task_queue (node_at (loadMonitorLoop_iteration 0
         (pair_with (loaded_node [task1, task2, task3] [(7, 0)]))) 1) = []
   \<and> message_queue (node_at (loadMonitorLoop_iteration 0
         (pair_with (loaded_node [task1, task2, task3] [(7, 0)]))) 1)
       = [setLoadValue (new_Message LOAD_UPDATE 0 (- 1)) 3]
   \<and> message_queue (node_at (loadMonitorLoop_iteration 0
         (pair_with (loaded_node [task1, task2, task3] [(7, 0)]))) 0) = []"
  by (simp add: eval_defs task1_def task2_def task3_def)

text \<open>
  C2, amended: when the chosen peer is not registered, \<open>sendMessage\<close> drops the
  \<open>TASK_TRANSFER\<close> and tells the caller nothing; the popped task is not put back. The
  sender's queue is left as it was after the pop, no other queue changes, and no inbox
  gains anything but the \<open>LOAD_UPDATE\<close> of the tick.
\<close>

theorem offload_unknown_receiver_drops:
  assumes run: "running (node_at s a)"
    and above: "load_threshold (node_at s a) < getCurrentLoad (node_at s a)"
    and queue: "task_queue (node_at s a) = t # q"
    and nm: "network_manager (node_at s a) = Some nmp"
    and chosen: "selectBestPeer ((node_at s a)\<lparr>task_queue := q\<rparr>) \<noteq> - 1"
    and unknown: "map_find (nodes (manager_at s nmp))
                    (selectBestPeer ((node_at s a)\<lparr>task_queue := q\<rparr>)) = None"
  shows "task_queue (node_at (loadMonitorLoop_iteration a s) a) = q
       \<and> (b \<noteq> a \<longrightarrow> task_queue (node_at (loadMonitorLoop_iteration a s) b) = task_queue (node_at s b))
       \<and> (\<exists>k. message_queue (node_at (loadMonitorLoop_iteration a s) b) =
                message_queue (node_at s b) @ replicate k (load_msg (node_at s a)))"
proof -
  let ?m = "load_msg (node_at s a)"
  let ?s1 = "broadcastMessage nmp (node_id (node_at s a)) ?m s"
  let ?s2 = "update_node a (\<lambda>n. n\<lparr>task_queue := q\<rparr>) ?s1"
  let ?k = "\<lambda>c. length (filter (\<lambda>e. fst e \<noteq> node_id (node_at s a) \<and> snd e = c)
                      (nodes (manager_at s nmp)))"
  have node1: "node_at ?s1 c =
      (node_at s c)\<lparr>message_queue := message_queue (node_at s c) @ replicate (?k c) ?m\<rparr>" for c
    by (rule node_at_broadcastMessage)
  have q1: "task_queue (node_at ?s1 a) = t # q" by (simp add: node1 queue)
  from run above q1 nm have it: "loadMonitorLoop_iteration a s = offloadTask a t ?s2"
    by (simp add: loadMonitorLoop_iteration_def Let_def)
  have node2: "node_at ?s2 a = (node_at ?s1 a)\<lparr>task_queue := q\<rparr>"
    by (simp add: node_at_update_node)
  have sel: "selectBestPeer (node_at ?s2 a) = selectBestPeer ((node_at s a)\<lparr>task_queue := q\<rparr>)"
    by (rule selectBestPeer_fields) (simp_all add: node2 node1)
  have man: "manager_at ?s2 = manager_at s"
    by (simp add: manager_at_update_node manager_at_broadcastMessage)
  have nm2: "network_manager (node_at ?s2 a) = Some nmp"
    by (simp add: node2 node1 nm)
  have "offloadTask a t ?s2 = ?s2"
    by (rule offloadTask_unregistered [OF nm2]) (simp_all only: sel man chosen unknown not_False_eq_True)
  with it have final: "loadMonitorLoop_iteration a s = ?s2" by simp
  have qa: "task_queue (node_at (loadMonitorLoop_iteration a s) a) = q"
    unfolding final by (simp add: node_at_update_node)
  have other: "task_queue (node_at (loadMonitorLoop_iteration a s) b) = task_queue (node_at s b)"
    if "b \<noteq> a"
    unfolding final using that by (simp add: node_at_update_node node1)
  have inbox: "message_queue (node_at (loadMonitorLoop_iteration a s) b) =
                message_queue (node_at s b) @ replicate (?k b) ?m"
    unfolding final by (simp add: node_at_update_node node1)
  from qa other inbox show ?thesis by blast
qed

theorem offload_unknown_receiver_drops_witness:
  "running (node_at (pair_with (loaded_node [task1, task2, task3] [(7, 0)])) 0)
   \<and> load_threshold (node_at (pair_with (loaded_node [task1, task2, task3] [(7, 0)])) 0)
       < getCurrentLoad (node_at (pair_with (loaded_node [task1, task2, task3] [(7, 0)])) 0)
   \<and> network_manager (node_at (pair_with (loaded_node [task1, task2, task3] [(7, 0)])) 0) = Some 0
   \<and> selectBestPeer ((node_at (pair_with (loaded_node [task1, task2, task3] [(7, 0)])) 0)
       \<lparr>task_queue := [task2, task3]\<rparr>) \<noteq> - 1
   \<and> task_queue (node_at (loadMonitorLoop_iteration 0
         (pair_with (loaded_node [task1, task2, task3] [(7, 0)]))) 0) = [task2, task3]"
proof -
  let ?s = "pair_with (loaded_node [task1, task2, task3] [(7, 0)])"
  have run: "running (node_at ?s 0)"
    and above: "load_threshold (node_at ?s 0) < getCurrentLoad (node_at ?s 0)"
    and queue: "task_queue (node_at ?s 0) = task1 # [task2, task3]"
    and nm: "network_manager (node_at ?s 0) = Some 0"
    by (simp_all add: pair_with_def loaded_node_def new_PeerNode_def getCurrentLoad_def to_int32_def)
  have best: "selectBestPeer ((node_at ?s 0)\<lparr>task_queue := [task2, task3]\<rparr>) = 7"
    by (simp add: eval_defs)
  then have chosen: "selectBestPeer ((node_at ?s 0)\<lparr>task_queue := [task2, task3]\<rparr>) \<noteq> - 1"
    by simp
  have unknown: "map_find (nodes (manager_at ?s 0))
                    (selectBestPeer ((node_at ?s 0)\<lparr>task_queue := [task2, task3]\<rparr>)) = None"
    unfolding best by (simp add: eval_defs)
  from offload_unknown_receiver_drops [OF run above queue nm chosen unknown]
  have "task_queue (node_at (loadMonitorLoop_iteration 0 ?s) 0) = [task2, task3]"
    by blast
  with run above nm chosen show ?thesis by simp
qed

section \<open>Where offload targets come from\<close>

lemma loop_result_key:
  "selectBestPeer_loop m best_peer min_load \<in> insert best_peer (fst ` set m)"
  by (induction m best_peer min_load rule: selectBestPeer_loop.induct) auto

lemma selectBestPeer_in_view:
  "selectBestPeer n = - 1 \<or> selectBestPeer n \<in> fst ` set (peer_loads n)"
  using loop_result_key [of "peer_loads n" "- 1" "getCurrentLoad n"]
  by (auto simp: selectBestPeer_def selectBestPeer_body_def)

lemma heard_processMessage:
  "heard (processMessage (n\<lparr>message_queue := q\<rparr>) m) \<subseteq> heard (n\<lparr>message_queue := m # q\<rparr>)"
  by (cases "msg_type m")
     (auto simp: heard_def processMessage_def getType_def getSenderId_def keys_map_assign
        addTask_def addPeer_def split: option.splits)

lemma heard_apply_event:
  "heard (apply_event n ev) \<subseteq> heard n \<union> load_update_senders [ev]"
proof (cases ev)
  case PumpStep
  show ?thesis
  proof (cases "message_queue n")
    case Nil
    with PumpStep show ?thesis by (simp add: messageProcessorLoop_body_def)
  next
    case (Cons m q)
    then have "n\<lparr>message_queue := m # q\<rparr> = n" by simp
    with heard_processMessage [where n = n and q = q and m = m] Cons PumpStep show ?thesis
      by (auto simp: messageProcessorLoop_body_def)
  qed
qed (auto simp: heard_def addTask_def handleMessage_def addPeer_def start_def stop_def
       workerLoop_body_def split: list.splits)

lemma load_update_senders_append:
  "load_update_senders (evs @ evs') = load_update_senders evs \<union> load_update_senders evs'"
  by (induction evs rule: load_update_senders.induct) auto

lemma heard_run_events:
  "heard (run_events n evs) \<subseteq> heard n \<union> load_update_senders evs"
proof (induction evs rule: rev_induct)
  case Nil
  show ?case by (simp add: run_events_def)
next
  case (snoc ev evs)
  have "heard (run_events n (evs @ [ev])) \<subseteq> heard (run_events n evs) \<union> load_update_senders [ev]"
    using heard_apply_event [of "run_events n evs" ev] by (simp add: run_events_def)
  with snoc.IH show ?case by (auto simp: load_update_senders_append)
qed

lemma gossip_manager:
  "manager_at (case network_manager n of
                   Some nmp \<Rightarrow> broadcastMessage nmp i m s
                 | None \<Rightarrow> s) = manager_at s"
  by (cases "network_manager n") (simp_all add: manager_at_broadcastMessage)

text \<open>What \<open>offloadTask\<close> does to the node at an address: nothing, the reinsertion of
  the task, or the delivery of the transfer addressed to the selected peer.\<close>

lemma offloadTask_node:
  "node_at (offloadTask a t s) b = node_at s b
   \<or> (b = a \<and> node_at (offloadTask a t s) b = addTask (node_at s a) t)
   \<or> (\<exists>nmp. network_manager (node_at s a) = Some nmp
        \<and> selectBestPeer (node_at s a) \<noteq> - 1
        \<and> map_find (nodes (manager_at s nmp)) (selectBestPeer (node_at s a)) = Some b
        \<and> node_at (offloadTask a t s) b = handleMessage (node_at s b)
             (setTask (new_Message TASK_TRANSFER (node_id (node_at s a))
                (selectBestPeer (node_at s a))) (Some t)))"
proof (cases "network_manager (node_at s a)")
  case None
  then show ?thesis
    by (cases "b = a") (simp_all add: offloadTask_def Let_def node_at_update_node)
next
  case (Some nmp)
  show ?thesis
  proof (cases "selectBestPeer (node_at s a) = - 1")
    case True
    with Some show ?thesis
      by (cases "b = a") (simp_all add: offloadTask_def Let_def node_at_update_node)
  next
    case False
    let ?tm = "setTask (new_Message TASK_TRANSFER (node_id (node_at s a))
                (selectBestPeer (node_at s a))) (Some t)"
    have rid: "getReceiverId ?tm = selectBestPeer (node_at s a)"
      by (simp add: getReceiverId_def setTask_def new_Message_def)
    from Some False have off: "offloadTask a t s = sendMessage nmp ?tm s"
      by (simp add: offloadTask_def Let_def)
    show ?thesis
    proof (cases "map_find (nodes (manager_at s nmp)) (selectBestPeer (node_at s a))")
      case None
      with rid have "sendMessage nmp ?tm s = s" by (simp add: sendMessage_def)
      with off show ?thesis by simp
    next
      case (Some r)
      with rid have send: "sendMessage nmp ?tm s = deliver r ?tm s"
        by (simp add: sendMessage_def)
      show ?thesis
      proof (cases "b = r")
        case True
        with off send have "node_at (offloadTask a t s) b = handleMessage (node_at s b) ?tm"
          by (simp add: node_at_deliver)
        with \<open>network_manager (node_at s a) = Some nmp\<close> False Some True show ?thesis
          by blast
      next
        case False
        with off send show ?thesis by (simp add: node_at_deliver)
      qed
    qed
  qed
qed

lemma offloadTask_inbox:
  "\<exists>new. message_queue (node_at (offloadTask a t s) b) = message_queue (node_at s b) @ new
     \<and> (\<forall>m \<in> set new.
           getType m = TASK_TRANSFER \<and> getTask m = Some t
           \<and> getSenderId m = node_id (node_at s a)
           \<and> getReceiverId m = selectBestPeer (node_at s a)
           \<and> getReceiverId m \<noteq> - 1
           \<and> getReceiverId m \<in> fst ` set (peer_loads (node_at s a))
           \<and> (\<exists>nmp. network_manager (node_at s a) = Some nmp
                \<and> map_find (nodes (manager_at s nmp)) (getReceiverId m) = Some b))"
proof -
  let ?tm = "setTask (new_Message TASK_TRANSFER (node_id (node_at s a))
                (selectBestPeer (node_at s a))) (Some t)"
  have tm: "getType ?tm = TASK_TRANSFER" "getTask ?tm = Some t"
    "getSenderId ?tm = node_id (node_at s a)"
    "getReceiverId ?tm = selectBestPeer (node_at s a)"
    by (simp_all add: getType_def getTask_def getSenderId_def getReceiverId_def setTask_def
        new_Message_def)
  from offloadTask_node [of a t s b] consider
    (same) "node_at (offloadTask a t s) b = node_at s b"
  | (reinserted) "node_at (offloadTask a t s) b = addTask (node_at s b) t"
  | (sent) nmp where "network_manager (node_at s a) = Some nmp"
      "selectBestPeer (node_at s a) \<noteq> - 1"
      "map_find (nodes (manager_at s nmp)) (selectBestPeer (node_at s a)) = Some b"
      "node_at (offloadTask a t s) b = handleMessage (node_at s b) ?tm"
    by blast
  then show ?thesis
  proof cases
    case same
    then show ?thesis by (intro exI [of _ "[]"]) simp
  next
    case reinserted
    then show ?thesis by (intro exI [of _ "[]"]) (simp add: addTask_def)
  next
    case sent
    from sent(2) selectBestPeer_in_view [of "node_at s a"]
    have key: "selectBestPeer (node_at s a) \<in> fst ` set (peer_loads (node_at s a))" by simp
    have "message_queue (node_at (offloadTask a t s) b) = message_queue (node_at s b) @ [?tm]"
      by (simp add: sent(4) handleMessage_def)
    moreover have "\<exists>nmp. network_manager (node_at s a) = Some nmp
        \<and> map_find (nodes (manager_at s nmp)) (getReceiverId ?tm) = Some b"
      using sent(1,3) tm(4) by auto
    ultimately show ?thesis using tm sent(2) key
      by (intro exI [of _ "[?tm]"]) simp
  qed
qed


text \<open>The state in which an iteration of the load monitor calls \<open>offloadTask\<close>: after
  the broadcast and the pop.\<close>

lemma popped_state:
  assumes queue: "task_queue (node_at s a) = t # q"
  shows "\<exists>k. node_at (update_node a (\<lambda>n. n\<lparr>task_queue := q\<rparr>)
            (case network_manager (node_at s a) of
               Some nmp \<Rightarrow> broadcastMessage nmp (node_id (node_at s a)) (load_msg (node_at s a)) s
             | None \<Rightarrow> s)) b
         = (if b = a
            then (node_at s a)\<lparr>message_queue := message_queue (node_at s a) @
                   replicate k (load_msg (node_at s a)), task_queue := q\<rparr>
            else (node_at s b)\<lparr>message_queue := message_queue (node_at s b) @
                   replicate k (load_msg (node_at s a))\<rparr>)"
proof -
  let ?s1 = "case network_manager (node_at s a) of
               Some nmp \<Rightarrow> broadcastMessage nmp (node_id (node_at s a)) (load_msg (node_at s a)) s
             | None \<Rightarrow> s"
  from gossip_node [where n = "node_at s a" and i = "node_id (node_at s a)"
      and m = "load_msg (node_at s a)" and s = s and b = b]
  obtain k where k: "node_at ?s1 b = (node_at s b)\<lparr>message_queue :=
      message_queue (node_at s b) @ replicate k (load_msg (node_at s a))\<rparr>"
    by blast
  show ?thesis
  proof (cases "b = a")
    case True
    with k have "node_at ?s1 a = (node_at s a)\<lparr>message_queue :=
      message_queue (node_at s a) @ replicate k (load_msg (node_at s a))\<rparr>" by simp
    with True show ?thesis by (intro exI [of _ k]) (simp add: node_at_update_node)
  next
    case False
    with k show ?thesis by (intro exI [of _ k]) (simp add: node_at_update_node)
  qed
qed

lemma iteration_offloads:
  assumes run: "running (node_at s a)"
    and above: "load_threshold (node_at s a) < getCurrentLoad (node_at s a)"
    and queue: "task_queue (node_at s a) = t # q"
  shows "loadMonitorLoop_iteration a s =
     offloadTask a t (update_node a (\<lambda>n. n\<lparr>task_queue := q\<rparr>)
       (case network_manager (node_at s a) of
          Some nmp \<Rightarrow> broadcastMessage nmp (node_id (node_at s a)) (load_msg (node_at s a)) s
        | None \<Rightarrow> s))"
proof -
  let ?s1 = "case network_manager (node_at s a) of
               Some nmp \<Rightarrow> broadcastMessage nmp (node_id (node_at s a)) (load_msg (node_at s a)) s
             | None \<Rightarrow> s"
  from gossip_node [where n = "node_at s a" and i = "node_id (node_at s a)"
      and m = "load_msg (node_at s a)" and s = s and b = a]
  obtain k where "node_at ?s1 a = (node_at s a)\<lparr>message_queue :=
      message_queue (node_at s a) @ replicate k (load_msg (node_at s a))\<rparr>"
    by blast
  then have "task_queue (node_at ?s1 a) = t # q" by (simp add: queue)
  with run above show ?thesis
    by (simp add: loadMonitorLoop_iteration_def Let_def)
qed

lemma iteration_gossips_only:
  assumes "running (node_at s a)"
    and "\<not> load_threshold (node_at s a) < getCurrentLoad (node_at s a)
         \<or> task_queue (node_at s a) = []"
  shows "loadMonitorLoop_iteration a s =
       (case network_manager (node_at s a) of
          Some nmp \<Rightarrow> broadcastMessage nmp (node_id (node_at s a)) (load_msg (node_at s a)) s
        | None \<Rightarrow> s)"
proof -
  let ?s1 = "case network_manager (node_at s a) of
               Some nmp \<Rightarrow> broadcastMessage nmp (node_id (node_at s a)) (load_msg (node_at s a)) s
             | None \<Rightarrow> s"
  from gossip_node [where n = "node_at s a" and i = "node_id (node_at s a)"
      and m = "load_msg (node_at s a)" and s = s and b = a]
  obtain k where "node_at ?s1 a = (node_at s a)\<lparr>message_queue :=
      message_queue (node_at s a) @ replicate k (load_msg (node_at s a))\<rparr>"
    by blast
  then have "task_queue (node_at ?s1 a) = task_queue (node_at s a)" by simp
  with assms show ?thesis
    by (auto simp: loadMonitorLoop_iteration_def Let_def)
qed

text \<open>Every message an iteration of the load monitor puts into an inbox is the
  \<open>LOAD_UPDATE\<close> of the tick or the transfer of the popped task to the selected peer.\<close>

lemma iteration_inbox:
  "\<exists>new. message_queue (node_at (loadMonitorLoop_iteration a s) b) =
            message_queue (node_at s b) @ new
     \<and> (\<forall>m \<in> set new. m = load_msg (node_at s a) \<or>
           (getType m = TASK_TRANSFER
            \<and> getSenderId m = node_id (node_at s a)
            \<and> (\<exists>t q. task_queue (node_at s a) = t # q \<and> getTask m = Some t
                  \<and> getReceiverId m = selectBestPeer ((node_at s a)\<lparr>task_queue := q\<rparr>))
            \<and> getReceiverId m \<noteq> - 1
            \<and> getReceiverId m \<in> fst ` set (peer_loads (node_at s a))
            \<and> (\<exists>nmp. network_manager (node_at s a) = Some nmp
                  \<and> map_find (nodes (manager_at s nmp)) (getReceiverId m) = Some b)))"
proof -
  let ?lm = "load_msg (node_at s a)"
  let ?s1 = "case network_manager (node_at s a) of
               Some nmp \<Rightarrow> broadcastMessage nmp (node_id (node_at s a)) ?lm s
             | None \<Rightarrow> s"
  consider (stopped) "\<not> running (node_at s a)"
    | (gossip) "running (node_at s a)"
        "\<not> load_threshold (node_at s a) < getCurrentLoad (node_at s a)
         \<or> task_queue (node_at s a) = []"
    | (offload) t q where "running (node_at s a)"
        "load_threshold (node_at s a) < getCurrentLoad (node_at s a)"
        "task_queue (node_at s a) = t # q"
    by (cases "task_queue (node_at s a)") auto
  then show ?thesis
  proof cases
    case stopped
    then have "loadMonitorLoop_iteration a s = s"
      by (simp add: loadMonitorLoop_iteration_def)
    then show ?thesis by (intro exI [of _ "[]"]) simp
  next
    case gossip
    then have it: "loadMonitorLoop_iteration a s = ?s1" by (rule iteration_gossips_only)
    from gossip_node [where n = "node_at s a" and i = "node_id (node_at s a)"
        and m = ?lm and s = s and b = b]
    obtain k where "node_at ?s1 b = (node_at s b)\<lparr>message_queue :=
        message_queue (node_at s b) @ replicate k ?lm\<rparr>"
      by blast
    then show ?thesis unfolding it by (intro exI [of _ "replicate k ?lm"]) simp
  next
    case offload
    let ?s2 = "update_node a (\<lambda>n. n\<lparr>task_queue := q\<rparr>) ?s1"
    from offload have it: "loadMonitorLoop_iteration a s = offloadTask a t ?s2"
      by (rule iteration_offloads)
    from popped_state [OF offload(3), of a] obtain ka where
      "node_at ?s2 a = (node_at s a)\<lparr>message_queue := message_queue (node_at s a) @
                   replicate ka ?lm, task_queue := q\<rparr>"
      by auto
    then have me: "node_id (node_at ?s2 a) = node_id (node_at s a)"
      "peer_loads (node_at ?s2 a) = peer_loads (node_at s a)"
      "network_manager (node_at ?s2 a) = network_manager (node_at s a)"
      "selectBestPeer (node_at ?s2 a) = selectBestPeer ((node_at s a)\<lparr>task_queue := q\<rparr>)"
      by (simp_all add: selectBestPeer_def getCurrentLoad_def)
    have man: "manager_at ?s2 = manager_at s"
      by (simp add: manager_at_update_node gossip_manager)
    from popped_state [OF offload(3), of b] obtain kb where
      inbox2: "message_queue (node_at ?s2 b) = message_queue (node_at s b) @ replicate kb ?lm"
      by (cases "b = a") auto
    from offloadTask_inbox [of a t ?s2 b] obtain new where
      new: "message_queue (node_at (offloadTask a t ?s2) b) = message_queue (node_at ?s2 b) @ new"
      and each: "\<forall>m \<in> set new.
           getType m = TASK_TRANSFER \<and> getTask m = Some t
           \<and> getSenderId m = node_id (node_at ?s2 a)
           \<and> getReceiverId m = selectBestPeer (node_at ?s2 a)
           \<and> getReceiverId m \<noteq> - 1
           \<and> getReceiverId m \<in> fst ` set (peer_loads (node_at ?s2 a))
           \<and> (\<exists>nmp. network_manager (node_at ?s2 a) = Some nmp
                \<and> map_find (nodes (manager_at ?s2 nmp)) (getReceiverId m) = Some b)"
      by blast
    have "message_queue (node_at (loadMonitorLoop_iteration a s) b) =
            message_queue (node_at s b) @ (replicate kb ?lm @ new)"
      unfolding it new inbox2 by simp
    moreover have "\<forall>m \<in> set (replicate kb ?lm @ new). m = ?lm \<or>
           (getType m = TASK_TRANSFER
            \<and> getSenderId m = node_id (node_at s a)
            \<and> (\<exists>t q. task_queue (node_at s a) = t # q \<and> getTask m = Some t
                  \<and> getReceiverId m = selectBestPeer ((node_at s a)\<lparr>task_queue := q\<rparr>))
            \<and> getReceiverId m \<noteq> - 1
            \<and> getReceiverId m \<in> fst ` set (peer_loads (node_at s a))
            \<and> (\<exists>nmp. network_manager (node_at s a) = Some nmp
                  \<and> map_find (nodes (manager_at s nmp)) (getReceiverId m) = Some b))"
    proof
      fix m assume "m \<in> set (replicate kb ?lm @ new)"
      then consider "m = ?lm" | "m \<in> set new" by auto
      then show "m = ?lm \<or>
           (getType m = TASK_TRANSFER
            \<and> getSenderId m = node_id (node_at s a)
            \<and> (\<exists>t q. task_queue (node_at s a) = t # q \<and> getTask m = Some t
                  \<and> getReceiverId m = selectBestPeer ((node_at s a)\<lparr>task_queue := q\<rparr>))
            \<and> getReceiverId m \<noteq> - 1
            \<and> getReceiverId m \<in> fst ` set (peer_loads (node_at s a))
            \<and> (\<exists>nmp. network_manager (node_at s a) = Some nmp
                  \<and> map_find (nodes (manager_at s nmp)) (getReceiverId m) = Some b))"
      proof cases
        case 1
        then show ?thesis by simp
      next
        case 2
        with each have m: "getType m = TASK_TRANSFER" "getTask m = Some t"
          "getSenderId m = node_id (node_at ?s2 a)"
          "getReceiverId m = selectBestPeer (node_at ?s2 a)"
          "getReceiverId m \<noteq> - 1"
          "getReceiverId m \<in> fst ` set (peer_loads (node_at ?s2 a))"
          "\<exists>nmp. network_manager (node_at ?s2 a) = Some nmp
                \<and> map_find (nodes (manager_at ?s2 nmp)) (getReceiverId m) = Some b"
          by blast+
        have "\<exists>t q. task_queue (node_at s a) = t # q \<and> getTask m = Some t
                  \<and> getReceiverId m = selectBestPeer ((node_at s a)\<lparr>task_queue := q\<rparr>)"
          using offload(3) m(2) m(4) me(4) by auto
        moreover have "\<exists>nmp. network_manager (node_at s a) = Some nmp
                  \<and> map_find (nodes (manager_at s nmp)) (getReceiverId m) = Some b"
          using m(7) unfolding me(3) man .
        ultimately show ?thesis using m(1,3,5,6) unfolding me(1,2) by blast
      qed
    qed
    ultimately show ?thesis by blast
  qed
qed


text \<open>What an iteration of the load monitor does to any node of the store is a
  history of that node, and the only load it lets a node hear is the ticking node's.\<close>

lemma run_events_append:
  "run_events n (evs @ evs') = run_events (run_events n evs) evs'"
  by (simp add: run_events_def)

lemma run_events_handle_replicate:
  "run_events n (replicate k (HandleMessage m)) =
     n\<lparr>message_queue := message_queue n @ replicate k m\<rparr>"
proof (induction k arbitrary: n)
  case 0
  show ?case by (simp add: run_events_def)
next
  case (Suc k)
  have "run_events n (replicate (Suc k) (HandleMessage m)) =
      run_events (handleMessage n m) (replicate k (HandleMessage m))"
    by (simp add: run_events_def)
  also have "\<dots> = (handleMessage n m)\<lparr>message_queue :=
      message_queue (handleMessage n m) @ replicate k m\<rparr>"
    by (rule Suc.IH)
  also have "\<dots> = n\<lparr>message_queue := message_queue n @ replicate (Suc k) m\<rparr>"
    by (simp add: handleMessage_def)
  finally show ?case .
qed

lemma senders_handle_replicate:
  "load_update_senders (replicate k (HandleMessage m)) \<subseteq> {sender_id m}"
  by (induction k) auto

lemma sender_load_msg: "sender_id (load_msg n) = node_id n"
  by (simp add: load_msg_def setLoadValue_def new_Message_def)

lemma offloadTask_as_events:
  "\<exists>evs'. node_at (offloadTask a t s) b = run_events (node_at s b) evs'
        \<and> load_update_senders evs' = {}"
proof -
  let ?tm = "setTask (new_Message TASK_TRANSFER (node_id (node_at s a))
                (selectBestPeer (node_at s a))) (Some t)"
  from offloadTask_node [of a t s b] consider
    (same) "node_at (offloadTask a t s) b = node_at s b"
  | (reinserted) "node_at (offloadTask a t s) b = addTask (node_at s b) t"
  | (sent) "node_at (offloadTask a t s) b = handleMessage (node_at s b) ?tm"
    by blast
  then show ?thesis
  proof cases
    case same
    then show ?thesis by (intro exI [of _ "[]"]) (simp add: run_events_def)
  next
    case reinserted
    then show ?thesis by (intro exI [of _ "[AddTask t]"]) (simp add: run_events_def)
  next
    case sent
    then show ?thesis
      by (intro exI [of _ "[HandleMessage ?tm]"])
         (simp add: run_events_def setTask_def new_Message_def)
  qed
qed

lemma iteration_as_events:
  "\<exists>evs'. node_at (loadMonitorLoop_iteration a s) b = run_events (node_at s b) evs'
        \<and> load_update_senders evs' \<subseteq> {node_id (node_at s a)}"
proof -
  let ?lm = "load_msg (node_at s a)"
  let ?s1 = "case network_manager (node_at s a) of
               Some nmp \<Rightarrow> broadcastMessage nmp (node_id (node_at s a)) ?lm s
             | None \<Rightarrow> s"
  have heard_own: "load_update_senders (replicate k (HandleMessage ?lm)) \<subseteq> {node_id (node_at s a)}"
    for k using senders_handle_replicate [of k ?lm] by (simp add: sender_load_msg)
  consider (stopped) "\<not> running (node_at s a)"
    | (gossip) "running (node_at s a)"
        "\<not> load_threshold (node_at s a) < getCurrentLoad (node_at s a)
         \<or> task_queue (node_at s a) = []"
    | (offload) t q where "running (node_at s a)"
        "load_threshold (node_at s a) < getCurrentLoad (node_at s a)"
        "task_queue (node_at s a) = t # q"
    by (cases "task_queue (node_at s a)") auto
  then show ?thesis
  proof cases
    case stopped
    then have "loadMonitorLoop_iteration a s = s"
      by (simp add: loadMonitorLoop_iteration_def)
    then show ?thesis by (intro exI [of _ "[]"]) (simp add: run_events_def)
  next
    case gossip
    then have it: "loadMonitorLoop_iteration a s = ?s1" by (rule iteration_gossips_only)
    from gossip_node [where n = "node_at s a" and i = "node_id (node_at s a)"
        and m = ?lm and s = s and b = b]
    obtain k where "node_at ?s1 b = (node_at s b)\<lparr>message_queue :=
        message_queue (node_at s b) @ replicate k ?lm\<rparr>"
      by blast
    then have "node_at ?s1 b = run_events (node_at s b) (replicate k (HandleMessage ?lm))"
      by (simp add: run_events_handle_replicate)
    with heard_own [of k] show ?thesis unfolding it by blast
  next
    case offload
    let ?s2 = "update_node a (\<lambda>n. n\<lparr>task_queue := q\<rparr>) ?s1"
    from offload have it: "loadMonitorLoop_iteration a s = offloadTask a t ?s2"
      by (rule iteration_offloads)
    from popped_state [OF offload(3), of b] obtain k where
      k: "node_at ?s2 b =
         (if b = a
          then (node_at s a)\<lparr>message_queue := message_queue (node_at s a) @
                   replicate k ?lm, task_queue := q\<rparr>
          else (node_at s b)\<lparr>message_queue := message_queue (node_at s b) @
                   replicate k ?lm\<rparr>)"
      by blast
    let ?pre = "replicate k (HandleMessage ?lm) @ (if b = a then [MonitorPop] else [])"
    have pre: "node_at ?s2 b = run_events (node_at s b) ?pre"
    proof (cases "b = a")
      case True
      have "run_events (node_at s a) (replicate k (HandleMessage ?lm) @ [MonitorPop]) =
          (node_at s a)\<lparr>message_queue := message_queue (node_at s a) @
                   replicate k ?lm, task_queue := q\<rparr>"
        unfolding run_events_append run_events_handle_replicate
        by (simp add: run_events_def offload(3))
      with True k show ?thesis by simp
    next
      case False
      with k show ?thesis by (simp add: run_events_handle_replicate)
    qed
    have pre_senders: "load_update_senders ?pre \<subseteq> {node_id (node_at s a)}"
      using heard_own [of k] by (auto simp: load_update_senders_append)
    from offloadTask_as_events [of a t ?s2 b] obtain evs2 where
      evs2: "node_at (offloadTask a t ?s2) b = run_events (node_at ?s2 b) evs2"
        "load_update_senders evs2 = {}"
      by blast
    have "node_at (loadMonitorLoop_iteration a s) b = run_events (node_at s b) (?pre @ evs2)"
      unfolding it evs2(1) pre run_events_append ..
    moreover have "load_update_senders (?pre @ evs2) \<subseteq> {node_id (node_at s a)}"
      using pre_senders evs2(2) by (simp add: load_update_senders_append)
    ultimately show ?thesis by blast
  qed
qed

subsection \<open>C9: the peer list plays no part in the selection\<close>

text \<open>
  C9. \<open>selectBestPeer\<close> is determined by the peer-load map and the current load: two
  nodes that agree on both give the same result, so changing the peer list, by
  \<open>addPeer\<close> or otherwise, does not change it. The peer-load map is written only when
  the pump dispatches a \<open>LOAD_UPDATE\<close>: after any history of a node from its
  construction, the result is \<open>-1\<close> or the sender of a \<open>LOAD_UPDATE\<close> that was handed
  to \<open>handleMessage\<close>.

  The offload destination is that result. Every message that \<open>offloadTask\<close> of the node
  at address \<open>a\<close> puts into the inbox of any node \<open>b\<close> is a \<open>TASK_TRANSFER\<close> of the given
  task whose receiver is \<open>selectBestPeer\<close> of the sending node, is not \<open>-1\<close>, is a key of
  the sender's peer-load map, and is the id under which \<open>b\<close> is registered with the
  sender's manager. Every message that an iteration of the load monitor puts into an
  inbox is the \<open>LOAD_UPDATE\<close> of the tick or such a transfer of the popped task, with
  the selection made after the pop. When the sending node has the history \<open>evs\<close> from
  its construction, the receiver is the sender of a \<open>LOAD_UPDATE\<close> handed to
  \<open>handleMessage\<close> in \<open>evs\<close>: a peer \<open>p\<close> that was only wired by \<open>addPeer\<close> is never the
  receiver of a transfer. What either step does to any node is again a history of
  that node, in which \<open>offloadTask\<close> hands over no \<open>LOAD_UPDATE\<close> and the iteration only
  that of the ticking node.
\<close>

theorem offload_target_from_load_updates:
  "(peer_loads n' = peer_loads n \<and> getCurrentLoad n' = getCurrentLoad n \<longrightarrow>
      selectBestPeer n' = selectBestPeer n)
   \<and> selectBestPeer (n\<lparr>peers := ps\<rparr>) = selectBestPeer n
   \<and> selectBestPeer (addPeer n p) = selectBestPeer n
   \<and> (selectBestPeer (run_events (new_PeerNode i thr nm) evs) = - 1
      \<or> selectBestPeer (run_events (new_PeerNode i thr nm) evs) \<in> load_update_senders evs)
   \<and> (p \<noteq> - 1 \<and> p \<notin> load_update_senders evs \<longrightarrow>
        selectBestPeer (run_events (new_PeerNode i thr nm) evs) \<noteq> p)
   \<and> (\<exists>new. message_queue (node_at (offloadTask a t s) b) = message_queue (node_at s b) @ new
        \<and> (\<forall>m \<in> set new.
              getType m = TASK_TRANSFER \<and> getTask m = Some t
              \<and> getSenderId m = node_id (node_at s a)
              \<and> getReceiverId m = selectBestPeer (node_at s a)
              \<and> getReceiverId m \<noteq> - 1
              \<and> getReceiverId m \<in> fst ` set (peer_loads (node_at s a))
              \<and> (\<exists>nmp. network_manager (node_at s a) = Some nmp
                   \<and> map_find (nodes (manager_at s nmp)) (getReceiverId m) = Some b)
              \<and> (node_at s a = run_events (new_PeerNode i thr nm) evs \<longrightarrow>
                   getReceiverId m \<in> load_update_senders evs
                   \<and> (p \<notin> load_update_senders evs \<longrightarrow> getReceiverId m \<noteq> p))))
   \<and> (\<exists>new. message_queue (node_at (loadMonitorLoop_iteration a s) b) =
               message_queue (node_at s b) @ new
        \<and> (\<forall>m \<in> set new. m = load_msg (node_at s a) \<or>
              (getType m = TASK_TRANSFER
               \<and> getSenderId m = node_id (node_at s a)
               \<and> (\<exists>t q. task_queue (node_at s a) = t # q \<and> getTask m = Some t
                     \<and> getReceiverId m = selectBestPeer ((node_at s a)\<lparr>task_queue := q\<rparr>))
               \<and> getReceiverId m \<noteq> - 1
               \<and> getReceiverId m \<in> fst ` set (peer_loads (node_at s a))
               \<and> (\<exists>nmp. network_manager (node_at s a) = Some nmp
                     \<and> map_find (nodes (manager_at s nmp)) (getReceiverId m) = Some b)
               \<and> (node_at s a = run_events (new_PeerNode i thr nm) evs \<longrightarrow>
                     getReceiverId m \<in> load_update_senders evs
                     \<and> (p \<notin> load_update_senders evs \<longrightarrow> getReceiverId m \<noteq> p)))))
   \<and> (\<exists>evs'. node_at (offloadTask a t s) b = run_events (node_at s b) evs'
        \<and> load_update_senders evs' = {})
   \<and> (\<exists>evs'. node_at (loadMonitorLoop_iteration a s) b = run_events (node_at s b) evs'
        \<and> load_update_senders evs' \<subseteq> {node_id (node_at s a)})"
proof -
  let ?n = "run_events (new_PeerNode i thr nm) evs"
  let ?hist = "node_at s a = ?n"
  have a: "selectBestPeer (n\<lparr>peers := ps\<rparr>) = selectBestPeer n"
    by (rule selectBestPeer_fields) simp_all
  have b: "selectBestPeer (addPeer n p) = selectBestPeer n"
    by (rule selectBestPeer_fields) (simp_all add: addPeer_def)
  have "heard (new_PeerNode i thr nm) = {}" by (simp add: heard_def new_PeerNode_def)
  with heard_run_events [of "new_PeerNode i thr nm" evs]
  have keys: "fst ` set (peer_loads ?n) \<subseteq> load_update_senders evs"
    by (auto simp: heard_def)
  with selectBestPeer_in_view [of ?n]
  have c: "selectBestPeer ?n = - 1 \<or> selectBestPeer ?n \<in> load_update_senders evs"
    by blast
  then have d: "p \<noteq> - 1 \<and> p \<notin> load_update_senders evs \<longrightarrow> selectBestPeer ?n \<noteq> p"
    by blast
  have e: "peer_loads n' = peer_loads n \<and> getCurrentLoad n' = getCurrentLoad n \<longrightarrow>
      selectBestPeer n' = selectBestPeer n"
    by (simp add: selectBestPeer_def)
  have heard_only: "?hist \<longrightarrow> r \<in> load_update_senders evs
                   \<and> (p \<notin> load_update_senders evs \<longrightarrow> r \<noteq> p)"
    if r: "r \<in> fst ` set (peer_loads (node_at s a))" for r
  proof
    assume ?hist
    with r keys have "r \<in> load_update_senders evs" by (simp add: subset_iff)
    then show "r \<in> load_update_senders evs
                   \<and> (p \<notin> load_update_senders evs \<longrightarrow> r \<noteq> p)"
      by blast
  qed
  from offloadTask_inbox [of a t s b] obtain new1 where
    new1: "message_queue (node_at (offloadTask a t s) b) = message_queue (node_at s b) @ new1"
    and each1: "\<forall>m \<in> set new1.
           getType m = TASK_TRANSFER \<and> getTask m = Some t
           \<and> getSenderId m = node_id (node_at s a)
           \<and> getReceiverId m = selectBestPeer (node_at s a)
           \<and> getReceiverId m \<noteq> - 1
           \<and> getReceiverId m \<in> fst ` set (peer_loads (node_at s a))
           \<and> (\<exists>nmp. network_manager (node_at s a) = Some nmp
                \<and> map_find (nodes (manager_at s nmp)) (getReceiverId m) = Some b)"
    by blast
  have f: "\<exists>new. message_queue (node_at (offloadTask a t s) b) = message_queue (node_at s b) @ new
        \<and> (\<forall>m \<in> set new.
              getType m = TASK_TRANSFER \<and> getTask m = Some t
              \<and> getSenderId m = node_id (node_at s a)
              \<and> getReceiverId m = selectBestPeer (node_at s a)
              \<and> getReceiverId m \<noteq> - 1
              \<and> getReceiverId m \<in> fst ` set (peer_loads (node_at s a))
              \<and> (\<exists>nmp. network_manager (node_at s a) = Some nmp
                   \<and> map_find (nodes (manager_at s nmp)) (getReceiverId m) = Some b)
              \<and> (?hist \<longrightarrow>
                   getReceiverId m \<in> load_update_senders evs
                   \<and> (p \<notin> load_update_senders evs \<longrightarrow> getReceiverId m \<noteq> p)))"
  proof (intro exI [of _ new1] conjI [OF new1] ballI)
    fix m assume "m \<in> set new1"
    with each1 have m: "getType m = TASK_TRANSFER \<and> getTask m = Some t
           \<and> getSenderId m = node_id (node_at s a)
           \<and> getReceiverId m = selectBestPeer (node_at s a)
           \<and> getReceiverId m \<noteq> - 1
           \<and> getReceiverId m \<in> fst ` set (peer_loads (node_at s a))
           \<and> (\<exists>nmp. network_manager (node_at s a) = Some nmp
                \<and> map_find (nodes (manager_at s nmp)) (getReceiverId m) = Some b)"
      by blast
    then have "getReceiverId m \<in> fst ` set (peer_loads (node_at s a))" by blast
    from heard_only [OF this] m
    show "getType m = TASK_TRANSFER \<and> getTask m = Some t
              \<and> getSenderId m = node_id (node_at s a)
              \<and> getReceiverId m = selectBestPeer (node_at s a)
              \<and> getReceiverId m \<noteq> - 1
              \<and> getReceiverId m \<in> fst ` set (peer_loads (node_at s a))
              \<and> (\<exists>nmp. network_manager (node_at s a) = Some nmp
                   \<and> map_find (nodes (manager_at s nmp)) (getReceiverId m) = Some b)
              \<and> (?hist \<longrightarrow>
                   getReceiverId m \<in> load_update_senders evs
                   \<and> (p \<notin> load_update_senders evs \<longrightarrow> getReceiverId m \<noteq> p))"
      by blast
  qed
  from iteration_inbox [of a s b] obtain new2 where
    new2: "message_queue (node_at (loadMonitorLoop_iteration a s) b) =
            message_queue (node_at s b) @ new2"
    and each2: "\<forall>m \<in> set new2. m = load_msg (node_at s a) \<or>
           (getType m = TASK_TRANSFER
            \<and> getSenderId m = node_id (node_at s a)
            \<and> (\<exists>t q. task_queue (node_at s a) = t # q \<and> getTask m = Some t
                  \<and> getReceiverId m = selectBestPeer ((node_at s a)\<lparr>task_queue := q\<rparr>))
            \<and> getReceiverId m \<noteq> - 1
            \<and> getReceiverId m \<in> fst ` set (peer_loads (node_at s a))
            \<and> (\<exists>nmp. network_manager (node_at s a) = Some nmp
                  \<and> map_find (nodes (manager_at s nmp)) (getReceiverId m) = Some b))"
    by blast
  have g: "\<exists>new. message_queue (node_at (loadMonitorLoop_iteration a s) b) =
               message_queue (node_at s b) @ new
        \<and> (\<forall>m \<in> set new. m = load_msg (node_at s a) \<or>
              (getType m = TASK_TRANSFER
               \<and> getSenderId m = node_id (node_at s a)
               \<and> (\<exists>t q. task_queue (node_at s a) = t # q \<and> getTask m = Some t
                     \<and> getReceiverId m = selectBestPeer ((node_at s a)\<lparr>task_queue := q\<rparr>))
               \<and> getReceiverId m \<noteq> - 1
               \<and> getReceiverId m \<in> fst ` set (peer_loads (node_at s a))
               \<and> (\<exists>nmp. network_manager (node_at s a) = Some nmp
                     \<and> map_find (nodes (manager_at s nmp)) (getReceiverId m) = Some b)
               \<and> (?hist \<longrightarrow>
                     getReceiverId m \<in> load_update_senders evs
                     \<and> (p \<notin> load_update_senders evs \<longrightarrow> getReceiverId m \<noteq> p))))"
  proof (intro exI [of _ new2] conjI [OF new2] ballI)
    fix m assume "m \<in> set new2"
    with each2 consider "m = load_msg (node_at s a)"
      | "getType m = TASK_TRANSFER
            \<and> getSenderId m = node_id (node_at s a)
            \<and> (\<exists>t q. task_queue (node_at s a) = t # q \<and> getTask m = Some t
                  \<and> getReceiverId m = selectBestPeer ((node_at s a)\<lparr>task_queue := q\<rparr>))
            \<and> getReceiverId m \<noteq> - 1
            \<and> getReceiverId m \<in> fst ` set (peer_loads (node_at s a))
            \<and> (\<exists>nmp. network_manager (node_at s a) = Some nmp
                  \<and> map_find (nodes (manager_at s nmp)) (getReceiverId m) = Some b)"
      by blast
    then show "m = load_msg (node_at s a) \<or>
              (getType m = TASK_TRANSFER
               \<and> getSenderId m = node_id (node_at s a)
               \<and> (\<exists>t q. task_queue (node_at s a) = t # q \<and> getTask m = Some t
                     \<and> getReceiverId m = selectBestPeer ((node_at s a)\<lparr>task_queue := q\<rparr>))
               \<and> getReceiverId m \<noteq> - 1
               \<and> getReceiverId m \<in> fst ` set (peer_loads (node_at s a))
               \<and> (\<exists>nmp. network_manager (node_at s a) = Some nmp
                     \<and> map_find (nodes (manager_at s nmp)) (getReceiverId m) = Some b)
               \<and> (?hist \<longrightarrow>
                     getReceiverId m \<in> load_update_senders evs
                     \<and> (p \<notin> load_update_senders evs \<longrightarrow> getReceiverId m \<noteq> p)))"
    proof cases
      case 1
      then show ?thesis by (rule disjI1)
    next
      case 2
      then have "getReceiverId m \<in> fst ` set (peer_loads (node_at s a))" by blast
      from heard_only [OF this] 2 show ?thesis by blast
    qed
  qed
  note h = offloadTask_as_events [of a t s b]
  note k = iteration_as_events [of a s b]
  from e a b c d f g h k show ?thesis by (intro conjI)
qed

text \<open>Peers 1 and 2 are wired and registered, only peer 2 has reported a load: the
  iteration of node 0 sends the first task to node 2, and node 1 receives the
  \<open>LOAD_UPDATE\<close> only.\<close>

theorem offload_target_from_load_updates_witness:
  "peers (run_events (new_PeerNode 0 1 (Some 0)) wired_events) = [1, 2]
   \<and> load_update_senders wired_events = {2}
   \<and> selectBestPeer (run_events (new_PeerNode 0 1 (Some 0)) wired_events) = 2
   \<and> selectBestPeer (run_events (new_PeerNode 0 1 (Some 0)) wired_events) \<noteq> 1
   \<and> node_at (trio_with (run_events (new_PeerNode 0 1 (Some 0)) wired_events)) 0
       = run_events (new_PeerNode 0 1 (Some 0)) wired_events
   \<and> task_queue (node_at (loadMonitorLoop_iteration 0
         (trio_with (run_events (new_PeerNode 0 1 (Some 0)) wired_events))) 0) = [task2, task3]
   \<and> message_queue (node_at (loadMonitorLoop_iteration 0
         (trio_with (run_events (new_PeerNode 0 1 (Some 0)) wired_events))) 1)
       = [setLoadValue (new_Message LOAD_UPDATE 0 (- 1)) 3]
   \<and> message_queue (node_at (loadMonitorLoop_iteration 0
         (trio_with (run_events (new_PeerNode 0 1 (Some 0)) wired_events))) 2)
       = [setLoadValue (new_Message LOAD_UPDATE 0 (- 1)) 3,
          setTask (new_Message TASK_TRANSFER 0 2) (Some task1)]"
proof -
  let ?n = "run_events (new_PeerNode 0 1 (Some 0)) wired_events"
  let ?s = "trio_with ?n"
  let ?s' = "loadMonitorLoop_iteration 0 ?s"
  have senders: "load_update_senders wired_events = {2}"
    by (simp add: wired_events_def setLoadValue_def new_Message_def)
  then have unheard: "(1::int) \<noteq> - 1 \<and> 1 \<notin> load_update_senders wired_events" by simp
  have hist: "node_at ?s 0 = ?n" by (simp add: trio_with_def)
  note inst = offload_target_from_load_updates [where p = 1 and i = 0 and thr = 1
      and nm = "Some 0" and evs = wired_events and s = ?s and a = 0 and b = 1
      and n = ?n and n' = ?n and ps = "[]" and t = task1]
  note selected = inst [THEN conjunct2, THEN conjunct2, THEN conjunct2, THEN conjunct2,
      THEN conjunct1]
  note delivered = inst [THEN conjunct2, THEN conjunct2, THEN conjunct2, THEN conjunct2,
      THEN conjunct2, THEN conjunct2, THEN conjunct1]
  from selected unheard have never: "selectBestPeer ?n \<noteq> 1" by blast
  from delivered obtain new where
    new: "message_queue (node_at ?s' 1) = message_queue (node_at ?s 1) @ new"
    and each: "\<forall>m \<in> set new. m = load_msg (node_at ?s 0) \<or>
        (getType m = TASK_TRANSFER \<and>
          (node_at ?s 0 = ?n \<longrightarrow>
             getReceiverId m \<in> load_update_senders wired_events
             \<and> (1 \<notin> load_update_senders wired_events \<longrightarrow> getReceiverId m \<noteq> 1)))"
    by blast
  from each hist unheard have no_task: "\<forall>m \<in> set new.
      m = load_msg (node_at ?s 0) \<or> getReceiverId m \<noteq> 1"
    by blast
  have node: "?n = \<lparr>node_id = 0, load_threshold = 1, tasks_processed = 0,
      task_queue = [task1, task2, task3], peer_loads = [(2, 0)], peers = [1, 2],
      message_queue = [], running = True, network_manager = Some 0\<rparr>"
    by (simp add: wired_events_def run_events_def new_PeerNode_def addPeer_def addTask_def
        handleMessage_def start_def messageProcessorLoop_body_def processMessage_def
        getType_def getSenderId_def getLoadValue_def setLoadValue_def new_Message_def)
  have best: "selectBestPeer ?n = 2"
    unfolding node
    by (simp add: selectBestPeer_def selectBestPeer_body_def getCurrentLoad_def to_int32_def)
  have q0: "task_queue (node_at ?s' 0) = [task2, task3]"
    unfolding node by (simp add: eval_defs trio_with_def)
  have in1: "message_queue (node_at ?s' 1) = [setLoadValue (new_Message LOAD_UPDATE 0 (- 1)) 3]"
    unfolding node by (simp add: eval_defs trio_with_def)
  have in2: "message_queue (node_at ?s' 2) = [setLoadValue (new_Message LOAD_UPDATE 0 (- 1)) 3,
          setTask (new_Message TASK_TRANSFER 0 2) (Some task1)]"
    unfolding node by (simp add: eval_defs trio_with_def)
  from node have "peers ?n = [1, 2]" by simp
  with senders best never no_task hist q0 in1 in2 show ?thesis by simp
qed

end
